theory Spec2Isabelle
  imports Main "HOL-Library.Sublist"
begin

section \<open>Python values and exceptions\<close>

text \<open>
  The exporter (\<^verbatim>\<open>oncall-exporter.py\<close>) polls an HTTP API, decodes JSON and writes
  Prometheus instruments. Every exception the code can meet is a value of \<open>exn\<close>.
  \<open>KeyError\<close>, \<open>TypeError\<close>, \<open>JSONDecodeError\<close> and \<open>RequestException\<close> (a transport
  failure of \<^verbatim>\<open>requests.get\<close>: connection refused, timeout) are subclasses of Python's
  \<^verbatim>\<open>Exception\<close>. \<open>SystemExit\<close> is what the SIGINT handler \<^verbatim>\<open>terminate\<close> raises through
  \<^verbatim>\<open>sys.exit(0)\<close> in whatever call is blocked when the signal arrives; it derives from
  \<^verbatim>\<open>BaseException\<close> only.
\<close>

datatype exn = KeyError | TypeError | JSONDecodeError | RequestException | SystemExit

fun is_Exception :: "exn \<Rightarrow> bool" where
  "is_Exception SystemExit = False"
| "is_Exception _ = True"

text \<open>
  What \<^verbatim>\<open>resp.json()\<close> returns: \<^verbatim>\<open>None\<close>, a bool, an int, a str, a list or a dict with
  str keys. A dict is an association list read with \<open>map_of\<close>; its keys are the distinct
  first components. Each \<open>char\<close> of a \<open>string\<close> stands for one character of the Python
  str. Floating-point numbers are left out of the embedding.
\<close>

datatype json =
    JNull
  | JBool bool
  | JInt int
  | JStr string
  | JArr "json list"
  | JObj "(string \<times> json) list"

text \<open>Truth value testing (\<^verbatim>\<open>not x\<close>, \<^verbatim>\<open>if x\<close>).\<close>

fun truthy :: "json \<Rightarrow> bool" where
  "truthy JNull = False"
| "truthy (JBool b) = b"
| "truthy (JInt i) = (i \<noteq> 0)"
| "truthy (JStr s) = (s \<noteq> [])"
| "truthy (JArr xs) = (xs \<noteq> [])"
| "truthy (JObj kvs) = (kvs \<noteq> [])"

text \<open>\<^verbatim>\<open>len(x)\<close>.\<close>

fun py_len :: "json \<Rightarrow> exn + int" where
  "py_len (JStr s) = Inr (int (length s))"
| "py_len (JArr xs) = Inr (int (length xs))"
| "py_len (JObj kvs) = Inr (int (length (remdups (map fst kvs))))"
| "py_len _ = Inl TypeError"

text \<open>\<^verbatim>\<open>for v in x\<close>: the elements of a list, the keys of a dict, the characters of a str.\<close>

fun py_iter :: "json \<Rightarrow> exn + json list" where
  "py_iter (JStr s) = Inr (map (\<lambda>c. JStr [c]) s)"
| "py_iter (JArr xs) = Inr xs"
| "py_iter (JObj kvs) = Inr (map JStr (remdups (map fst kvs)))"
| "py_iter _ = Inl TypeError"

text \<open>\<^verbatim>\<open>x[k]\<close> for a str key \<open>k\<close>: only a dict can be subscripted by a str.\<close>

fun py_getitem :: "json \<Rightarrow> string \<Rightarrow> exn + json" where
  "py_getitem (JObj kvs) k = (case map_of kvs k of None \<Rightarrow> Inl KeyError | Some v \<Rightarrow> Inr v)"
| "py_getitem _ k = Inl TypeError"

text \<open>\<^verbatim>\<open>k in x\<close> for a str \<open>k\<close>: a key of a dict, an element of a list, a substring of a str.\<close>

fun py_contains :: "string \<Rightarrow> json \<Rightarrow> exn + bool" where
  "py_contains k (JObj kvs) = Inr (k \<in> fst ` set kvs)"
| "py_contains k (JArr xs) = Inr (JStr k \<in> set xs)"
| "py_contains k (JStr s) = Inr (sublist k s)"
| "py_contains k _ = Inl TypeError"

text \<open>\<^verbatim>\<open>x + y\<close>: lists and strs concatenate, bools and ints add (a bool counts as 0 or 1).\<close>

fun as_int :: "json \<Rightarrow> int option" where
  "as_int (JBool b) = Some (if b then 1 else 0)"
| "as_int (JInt i) = Some i"
| "as_int _ = None"

fun py_add :: "json \<Rightarrow> json \<Rightarrow> exn + json" where
  "py_add (JArr xs) (JArr ys) = Inr (JArr (xs @ ys))"
| "py_add (JStr s) (JStr t) = Inr (JStr (s @ t))"
| "py_add x y =
     (case (as_int x, as_int y) of
        (Some i, Some j) \<Rightarrow> Inr (JInt (i + j))
      | _ \<Rightarrow> Inl TypeError)"

text \<open>
  \<^verbatim>\<open>str(x)\<close>, as an f-string and \<^verbatim>\<open>Gauge.labels\<close> apply it: a str is itself. The text
  Python prints for any other value is the parameter \<open>fmt\<close>.
\<close>

definition py_str :: "(json \<Rightarrow> string) \<Rightarrow> json \<Rightarrow> string" where
  "py_str fmt x = (case x of JStr s \<Rightarrow> s | _ \<Rightarrow> fmt x)"

section \<open>The upstream API and the metric registry\<close>

text \<open>
  A response as the code reads it: the status code, and the decoded body (\<open>None\<close> when
  the body is not JSON, so that \<^verbatim>\<open>resp.json()\<close> raises).
\<close>

record response =
  status_code :: int
  body :: "json option"

definition resp_json :: "response \<Rightarrow> exn + json" where
  "resp_json resp = (case body resp of None \<Rightarrow> Inl JSONDecodeError | Some v \<Rightarrow> Inr v)"

text \<open>
  The upstream during one run of an updater: what \<^verbatim>\<open>requests.get\<close> does for each path,
  either raising or returning a response.
\<close>

type_synonym upstream = "string \<Rightarrow> exn + response"

text \<open>
  The module-level instruments. A counter or an unlabelled gauge holds one value; a
  labelled gauge holds one value for each label tuple \<open>(team_name, rotation)\<close> written
  so far.
\<close>

record registry =
  ONCALL_API_REQUESTS_TOTAL :: int
  ONCALL_API_REQUESTS_FAILED_TOTAL :: int
  ONCALL_HEALTH_STATUS :: int
  ONCALL_USERS_TOTAL :: int
  ONCALL_USERS_WITHOUT_CONTACTS_GAUGE :: int
  ONCALL_USERS_WITHOUT_PHONE_NUMBER :: int
  ONCALL_TEAMS_TOTAL :: int
  ONCALL_TEAMS_UNDERSTAFFED :: int
  ONCALL_TEAM_ROTATION_STAFF_COUNT :: "string \<times> string \<rightharpoonup> int"
  ONCALL_TEAMS_TOTAL_UNREACHABLE_BY_PHONE :: int
  ONCALL_TEAM_ROTATION_UNREACHABLE_BY_PHONE_COUNT :: "string \<times> string \<rightharpoonup> int"

text \<open>
  \<^verbatim>\<open>request_with_counting\<close>: the attempt counter is incremented before the request is
  sent, the failure counter when a response arrives whose status is not 200.
\<close>

definition request_with_counting :: "upstream \<Rightarrow> string \<Rightarrow> registry \<Rightarrow> (exn + response) \<times> registry" where
  "request_with_counting up path reg =
     (let reg1 = reg\<lparr>ONCALL_API_REQUESTS_TOTAL := ONCALL_API_REQUESTS_TOTAL reg + 1\<rparr>
      in case up path of
           Inl e \<Rightarrow> (Inl e, reg1)
         | Inr resp \<Rightarrow>
             if status_code resp \<noteq> 200
             then (Inr resp, reg1\<lparr>ONCALL_API_REQUESTS_FAILED_TOTAL :=
                                    ONCALL_API_REQUESTS_FAILED_TOTAL reg1 + 1\<rparr>)
             else (Inr resp, reg1))"

section \<open>The updaters\<close>

text \<open>
  An updater returns the exception it raised, if any, and the registry as it left it:
  the writes made before a raise stay.
\<close>

type_synonym updater = "upstream \<Rightarrow> registry \<Rightarrow> exn option \<times> registry"

definition health :: updater where
  "health up reg =
     (case request_with_counting up ''/'' reg of
        (Inl e, r) \<Rightarrow> (Some e, r)
      | (Inr resp, r) \<Rightarrow>
          if status_code resp = 200
          then (None, r\<lparr>ONCALL_HEALTH_STATUS := 1\<rparr>)
          else (None, r\<lparr>ONCALL_HEALTH_STATUS := 0\<rparr>))"

text \<open>
  The condition \<^verbatim>\<open>"call" not in x[k] and "sms" not in x[k]\<close>, used for a user's
  \<^verbatim>\<open>contacts\<close> and for a member's \<^verbatim>\<open>user_contacts\<close>; \<^verbatim>\<open>and\<close> evaluates its right operand
  only when the left one is true.
\<close>

definition no_call_no_sms :: "json \<Rightarrow> string \<Rightarrow> exn + bool" where
  "no_call_no_sms x k =
     (case py_getitem x k of
        Inl e \<Rightarrow> Inl e
      | Inr c \<Rightarrow>
          (case py_contains ''call'' c of
             Inl e \<Rightarrow> Inl e
           | Inr has_call \<Rightarrow>
               if has_call then Inr False
               else (case py_getitem x k of
                       Inl e \<Rightarrow> Inl e
                     | Inr c' \<Rightarrow>
                         (case py_contains ''sms'' c' of
                            Inl e \<Rightarrow> Inl e
                          | Inr has_sms \<Rightarrow> Inr (\<not> has_sms)))))"

text \<open>
  The body of the loop over the users, on the local counters \<open>(failed_users, no_phone)\<close>.
  The f-string of each \<^verbatim>\<open>logging.debug\<close> call reads \<^verbatim>\<open>user['name']\<close> before logging.
\<close>

definition user_body :: "json \<Rightarrow> int \<times> int \<Rightarrow> exn + int \<times> int" where
  "user_body user acc =
     (case acc of (failed_users, no_phone) \<Rightarrow>
        (case py_getitem user ''contacts'' of
           Inl e \<Rightarrow> Inl e
         | Inr c \<Rightarrow>
             (case (if \<not> truthy c
                    then (case py_getitem user ''name'' of
                            Inl e \<Rightarrow> Inl e
                          | Inr _ \<Rightarrow> Inr (failed_users + 1))
                    else Inr failed_users) of
                Inl e \<Rightarrow> Inl e
              | Inr failed_users' \<Rightarrow>
                  (case no_call_no_sms user ''contacts'' of
                     Inl e \<Rightarrow> Inl e
                   | Inr True \<Rightarrow>
                       (case py_getitem user ''name'' of
                          Inl e \<Rightarrow> Inl e
                        | Inr _ \<Rightarrow> Inr (failed_users', no_phone + 1))
                   | Inr False \<Rightarrow> Inr (failed_users', no_phone)))))"

fun users_loop :: "json list \<Rightarrow> int \<times> int \<Rightarrow> exn + int \<times> int" where
  "users_loop [] acc = Inr acc"
| "users_loop (user # rest) acc =
     (case user_body user acc of
        Inl e \<Rightarrow> Inl e
      | Inr acc' \<Rightarrow> users_loop rest acc')"

definition number_of_users_without_contacts :: updater where
  "number_of_users_without_contacts up reg =
     (case request_with_counting up ''/api/v0/users'' reg of
        (Inl e, r) \<Rightarrow> (Some e, r)
      | (Inr resp, r) \<Rightarrow>
          if status_code resp \<noteq> 200 then (None, r)
          else (case resp_json resp of
                  Inl e \<Rightarrow> (Some e, r)
                | Inr users \<Rightarrow>
                    (case py_len users of
                       Inl e \<Rightarrow> (Some e, r)
                     | Inr n \<Rightarrow>
                         (let r1 = r\<lparr>ONCALL_USERS_TOTAL := n\<rparr>
                          in case py_iter users of
                               Inl e \<Rightarrow> (Some e, r1)
                             | Inr us \<Rightarrow>
                                 (case users_loop us (0, 0) of
                                    Inl e \<Rightarrow> (Some e, r1)
                                  | Inr (failed_users, no_phone) \<Rightarrow>
                                      (None, r1\<lparr>ONCALL_USERS_WITHOUT_CONTACTS_GAUGE := failed_users,
                                                 ONCALL_USERS_WITHOUT_PHONE_NUMBER := no_phone\<rparr>))))))"

text \<open>
  The list comprehension \<^verbatim>\<open>[member for member in members if ...]\<close>, over the members as
  the iteration yields them.
\<close>

fun members_without_number :: "json list \<Rightarrow> exn + json list" where
  "members_without_number [] = Inr []"
| "members_without_number (member # rest) =
     (case no_call_no_sms member ''user_contacts'' of
        Inl e \<Rightarrow> Inl e
      | Inr keep \<Rightarrow>
          (case members_without_number rest of
             Inl e \<Rightarrow> Inl e
           | Inr kept \<Rightarrow> Inr (if keep then member # kept else kept)))"

text \<open>
  The body of the loop over \<^verbatim>\<open>["current", "next"]\<close>, on the registry and the two flags
  \<open>(is_understaffed, is_unreachable_by_phone)\<close>. Everything that can raise comes before
  the first write, so a raise leaves the state as it was. The comparison
  \<^verbatim>\<open>members_without_number == members\<close> is between a list and what \<^verbatim>\<open>+\<close> returned; the
  filtered list holds the very objects of \<^verbatim>\<open>members\<close>, so the two are equal exactly when
  nothing was filtered out of a list.
\<close>

type_synonym slot_state = "registry \<times> bool \<times> bool"

definition slot_body :: "(json \<Rightarrow> string) \<Rightarrow> json \<Rightarrow> json \<Rightarrow> string \<Rightarrow> slot_state \<Rightarrow> exn + slot_state" where
  "slot_body fmt team_name team_data event_time st =
     (case st of (reg, is_understaffed, is_unreachable_by_phone) \<Rightarrow>
        (case py_getitem team_data event_time of
           Inl e \<Rightarrow> Inl e
         | Inr event \<Rightarrow>
             if \<not> truthy event
             then Inr (reg\<lparr>ONCALL_TEAM_ROTATION_STAFF_COUNT :=
                              (ONCALL_TEAM_ROTATION_STAFF_COUNT reg)
                                ((py_str fmt team_name, event_time) \<mapsto> 0),
                            ONCALL_TEAM_ROTATION_UNREACHABLE_BY_PHONE_COUNT :=
                              (ONCALL_TEAM_ROTATION_UNREACHABLE_BY_PHONE_COUNT reg)
                                ((py_str fmt team_name, event_time) \<mapsto> 0)\<rparr>,
                      is_understaffed, is_unreachable_by_phone)
             else
               (case py_getitem event ''primary'' of
                  Inl e \<Rightarrow> Inl e
                | Inr primary \<Rightarrow>
               (case py_getitem event ''secondary'' of
                  Inl e \<Rightarrow> Inl e
                | Inr secondary \<Rightarrow>
               (case py_add primary secondary of
                  Inl e \<Rightarrow> Inl e
                | Inr members \<Rightarrow>
               (case py_iter members of
                  Inl e \<Rightarrow> Inl e
                | Inr ms \<Rightarrow>
               (case members_without_number ms of
                  Inl e \<Rightarrow> Inl e
                | Inr without \<Rightarrow>
               (case py_len members of
                  Inl e \<Rightarrow> Inl e
                | Inr n \<Rightarrow>
                    Inr (reg\<lparr>ONCALL_TEAM_ROTATION_STAFF_COUNT :=
                                (ONCALL_TEAM_ROTATION_STAFF_COUNT reg)
                                  ((py_str fmt team_name, event_time) \<mapsto> n),
                              ONCALL_TEAM_ROTATION_UNREACHABLE_BY_PHONE_COUNT :=
                                (ONCALL_TEAM_ROTATION_UNREACHABLE_BY_PHONE_COUNT reg)
                                  ((py_str fmt team_name, event_time) \<mapsto> int (length without))\<rparr>,
                         (if n < 2 then True else is_understaffed),
                         (if JArr without = members then True
                          else is_unreachable_by_phone))))))))))"

fun slots_loop :: "(json \<Rightarrow> string) \<Rightarrow> json \<Rightarrow> json \<Rightarrow> string list \<Rightarrow> slot_state \<Rightarrow> exn option \<times> slot_state" where
  "slots_loop fmt team_name team_data [] st = (None, st)"
| "slots_loop fmt team_name team_data (event_time # rest) st =
     (case slot_body fmt team_name team_data event_time st of
        Inl e \<Rightarrow> (Some e, st)
      | Inr st' \<Rightarrow> slots_loop fmt team_name team_data rest st')"

text \<open>
  The body of the loop over the team names, on the registry and the local counters
  \<open>(understaffed, unreachable)\<close>.
\<close>

type_synonym teams_state = "registry \<times> int \<times> int"

definition summary_path :: "string \<Rightarrow> string" where
  "summary_path name = ''/api/v0/teams/'' @ name @ ''/summary''"

definition team_body :: "(json \<Rightarrow> string) \<Rightarrow> upstream \<Rightarrow> json \<Rightarrow> teams_state \<Rightarrow> exn option \<times> teams_state" where
  "team_body fmt up team_name st =
     (case st of (reg, understaffed, unreachable) \<Rightarrow>
        (case request_with_counting up (summary_path (py_str fmt team_name)) reg of
           (Inl e, r) \<Rightarrow> (Some e, (r, understaffed, unreachable))
         | (Inr resp, r) \<Rightarrow>
             if status_code resp \<noteq> 200 then (None, (r, understaffed, unreachable))
             else (case resp_json resp of
                     Inl e \<Rightarrow> (Some e, (r, understaffed, unreachable))
                   | Inr team_data \<Rightarrow>
                       (case slots_loop fmt team_name team_data [''current'', ''next'']
                               (r, False, False) of
                          (Some e, (r', _, _)) \<Rightarrow> (Some e, (r', understaffed, unreachable))
                        | (None, (r', is_understaffed, is_unreachable_by_phone)) \<Rightarrow>
                            (None, (r',
                                    (if is_understaffed then understaffed + 1 else understaffed),
                                    (if is_unreachable_by_phone then unreachable + 1
                                     else unreachable)))))))"

fun teams_loop :: "(json \<Rightarrow> string) \<Rightarrow> upstream \<Rightarrow> json list \<Rightarrow> teams_state \<Rightarrow> exn option \<times> teams_state" where
  "teams_loop fmt up [] st = (None, st)"
| "teams_loop fmt up (team_name # rest) st =
     (case team_body fmt up team_name st of
        (Some e, st') \<Rightarrow> (Some e, st')
      | (None, st') \<Rightarrow> teams_loop fmt up rest st')"

definition teams :: "(json \<Rightarrow> string) \<Rightarrow> updater" where
  "teams fmt up reg =
     (case request_with_counting up ''/api/v0/teams'' reg of
        (Inl e, r) \<Rightarrow> (Some e, r)
      | (Inr resp, r) \<Rightarrow>
          if status_code resp \<noteq> 200 then (None, r)
          else (case resp_json resp of
                  Inl e \<Rightarrow> (Some e, r)
                | Inr teams_value \<Rightarrow>
                    (case py_len teams_value of
                       Inl e \<Rightarrow> (Some e, r)
                     | Inr n \<Rightarrow>
                         (let r1 = r\<lparr>ONCALL_TEAMS_TOTAL := n\<rparr>
                          in case py_iter teams_value of
                               Inl e \<Rightarrow> (Some e, r1)
                             | Inr names \<Rightarrow>
                                 (case teams_loop fmt up names (r1, 0, 0) of
                                    (Some e, (r2, _, _)) \<Rightarrow> (Some e, r2)
                                  | (None, (r2, understaffed, unreachable)) \<Rightarrow>
                                      (None, r2\<lparr>ONCALL_TEAMS_UNDERSTAFFED := understaffed,
                                                 ONCALL_TEAMS_TOTAL_UNREACHABLE_BY_PHONE := unreachable\<rparr>))))))"

section \<open>The scheduler loop\<close>

text \<open>
  The updaters in the order the \<^verbatim>\<open>@updater\<close> decorator registered them.
\<close>

definition updaters :: "(json \<Rightarrow> string) \<Rightarrow> updater list" where
  "updaters fmt = [health, number_of_users_without_contacts, teams fmt]"

text \<open>
  One pass of \<^verbatim>\<open>for func in updaters: try: func() except Exception as e:
  logging.exception(e)\<close>, on the registry and the list of exceptions logged so far. An
  exception that is not an \<^verbatim>\<open>Exception\<close> leaves the loop.
\<close>

type_synonym loop_state = "registry \<times> exn list"

fun run_updaters :: "updater list \<Rightarrow> upstream \<Rightarrow> loop_state \<Rightarrow> exn option \<times> loop_state" where
  "run_updaters [] up st = (None, st)"
| "run_updaters (func # rest) up st =
     (case st of (reg, logged) \<Rightarrow>
        (case func up reg of
           (None, reg') \<Rightarrow> run_updaters rest up (reg', logged)
         | (Some e, reg') \<Rightarrow>
             if is_Exception e then run_updaters rest up (reg', logged @ [e])
             else (Some e, (reg', logged))))"

text \<open>
  \<^verbatim>\<open>while True\<close>: the loop never returns by itself. Its runs are given by their finite
  prefixes: \<open>main_loop fs ups st\<close> makes one pass for each element of \<open>ups\<close>, the
  upstream as it stands during that pass, and returns \<open>None\<close> when the loop is still
  running after the last of them, or the exception that ended the process.
\<close>

fun main_loop :: "updater list \<Rightarrow> upstream list \<Rightarrow> loop_state \<Rightarrow> exn option \<times> loop_state" where
  "main_loop fs [] st = (None, st)"
| "main_loop fs (up # ups) st =
     (case run_updaters fs up st of
        (Some e, st') \<Rightarrow> (Some e, st')
      | (None, st') \<Rightarrow> main_loop fs ups st')"

section \<open>Vocabulary of the specification\<close>

text \<open>
  The words of the specification, over the decoded JSON. \<open>field x k\<close> is the value
  of key \<open>k\<close> in the mapping \<open>x\<close>, \<open>keys x\<close> the keys of a mapping.
\<close>

definition field :: "json \<Rightarrow> string \<Rightarrow> json option" where
  "field x k = (case x of JObj kvs \<Rightarrow> map_of kvs k | _ \<Rightarrow> None)"

definition keys :: "json \<Rightarrow> string set" where
  "keys x = (case x of JObj kvs \<Rightarrow> fst ` set kvs | _ \<Rightarrow> {})"

definition is_mapping :: "json \<Rightarrow> bool" where
  "is_mapping x = (case x of JObj kvs \<Rightarrow> True | _ \<Rightarrow> False)"

definition list_field :: "json \<Rightarrow> string \<Rightarrow> json list option" where
  "list_field x k = (case field x k of Some (JArr xs) \<Rightarrow> Some xs | _ \<Rightarrow> None)"

text \<open>
  "Has phone reachability": the mapping contains the key \<^verbatim>\<open>call\<close> or the key \<^verbatim>\<open>sms\<close>.
\<close>

definition has_phone :: "json \<Rightarrow> bool" where
  "has_phone c = (''call'' \<in> keys c \<or> ''sms'' \<in> keys c)"

text \<open>
  A user \<^verbatim>\<open>{name, contacts}\<close> of \<^verbatim>\<open>/api/v0/users\<close>: it has a name, and its contacts are a
  mapping.
\<close>

definition contacts_of :: "json \<Rightarrow> json" where
  "contacts_of user = (case field user ''contacts'' of Some c \<Rightarrow> c | None \<Rightarrow> JNull)"

definition is_user :: "json \<Rightarrow> bool" where
  "is_user user = (field user ''name'' \<noteq> None \<and> is_mapping (contacts_of user))"

text \<open>
  A member \<^verbatim>\<open>{user_contacts}\<close> of a rotation event, and an event
  \<^verbatim>\<open>{primary: [Member], secondary: [Member]}\<close>, whose members are the primary ones followed
  by the secondary ones.
\<close>

definition member_contacts :: "json \<Rightarrow> json" where
  "member_contacts member = (case field member ''user_contacts'' of Some c \<Rightarrow> c | None \<Rightarrow> JNull)"

definition is_member :: "json \<Rightarrow> bool" where
  "is_member member = is_mapping (member_contacts member)"

definition lacks_phone :: "json \<Rightarrow> bool" where
  "lacks_phone member = (\<not> has_phone (member_contacts member))"

definition event_members :: "json \<Rightarrow> json list" where
  "event_members event =
     (case list_field event ''primary'' of
        None \<Rightarrow> []
      | Some ps \<Rightarrow>
          (case list_field event ''secondary'' of
             None \<Rightarrow> []
           | Some ss \<Rightarrow> ps @ ss))"

definition is_event :: "json \<Rightarrow> bool" where
  "is_event event =
     (list_field event ''primary'' \<noteq> None \<and> list_field event ''secondary'' \<noteq> None \<and>
      list_all is_member (event_members event))"

text \<open>
  A team summary \<^verbatim>\<open>{current: Event|null, next: Event|null}\<close>. A slot is present and
  non-empty when its value is truthy; then it has to be an event.
\<close>

definition slot_of :: "json \<Rightarrow> string \<Rightarrow> json" where
  "slot_of summary slot = (case field summary slot of Some v \<Rightarrow> v | None \<Rightarrow> JNull)"

definition is_slot :: "json \<Rightarrow> string \<Rightarrow> bool" where
  "is_slot summary slot =
     (case field summary slot of
        None \<Rightarrow> False
      | Some v \<Rightarrow> if truthy v then is_event v else True)"

definition is_summary :: "json \<Rightarrow> bool" where
  "is_summary summary = (is_slot summary ''current'' \<and> is_slot summary ''next'')"

text \<open>
  What the specification says of one slot of a summary: the staff count and the
  unreachable count (0 for an absent slot), whether the slot makes the team
  understaffed (a present slot with fewer than two members), and whether it makes the
  team unreachable by phone (a present slot whose members without phone are all its
  members).
\<close>

definition slot_staff :: "json \<Rightarrow> string \<Rightarrow> int" where
  "slot_staff summary slot =
     (if truthy (slot_of summary slot) then int (length (event_members (slot_of summary slot))) else 0)"

definition slot_unreachable :: "json \<Rightarrow> string \<Rightarrow> int" where
  "slot_unreachable summary slot =
     (if truthy (slot_of summary slot)
      then int (length (filter lacks_phone (event_members (slot_of summary slot)))) else 0)"

definition slot_understaffed :: "json \<Rightarrow> string \<Rightarrow> bool" where
  "slot_understaffed summary slot =
     (truthy (slot_of summary slot) \<and> length (event_members (slot_of summary slot)) < 2)"

definition slot_all_unreachable :: "json \<Rightarrow> string \<Rightarrow> bool" where
  "slot_all_unreachable summary slot =
     (truthy (slot_of summary slot) \<and>
      filter lacks_phone (event_members (slot_of summary slot)) = event_members (slot_of summary slot))"

text \<open>
  The summary of a team whose fetch succeeded (status 200), by the name that goes into
  the path. A team is in order when its fetch returns a response that is either not a
  200 or a 200 with a summary as above.
\<close>

definition summary_of :: "upstream \<Rightarrow> string \<Rightarrow> json option" where
  "summary_of up name =
     (case up (summary_path name) of
        Inl e \<Rightarrow> None
      | Inr resp \<Rightarrow> if status_code resp = 200 then body resp else None)"

definition team_ok :: "upstream \<Rightarrow> string \<Rightarrow> bool" where
  "team_ok up name =
     (case up (summary_path name) of
        Inl e \<Rightarrow> False
      | Inr resp \<Rightarrow>
          if status_code resp = 200
          then (case body resp of None \<Rightarrow> False | Some d \<Rightarrow> is_summary d)
          else True)"

definition team_understaffed :: "upstream \<Rightarrow> string \<Rightarrow> bool" where
  "team_understaffed up name =
     (case summary_of up name of
        None \<Rightarrow> False
      | Some d \<Rightarrow> slot_understaffed d ''current'' \<or> slot_understaffed d ''next'')"

definition team_unreachable :: "upstream \<Rightarrow> string \<Rightarrow> bool" where
  "team_unreachable up name =
     (case summary_of up name of
        None \<Rightarrow> False
      | Some d \<Rightarrow> slot_all_unreachable d ''current'' \<or> slot_all_unreachable d ''next'')"

text \<open>
  The event of a slot that is present and non-empty, for a team whose summary fetch
  succeeded.
\<close>

definition slot_event :: "upstream \<Rightarrow> string \<Rightarrow> string \<Rightarrow> json option" where
  "slot_event up name slot =
     (case summary_of up name of
        None \<Rightarrow> None
      | Some d \<Rightarrow> if truthy (slot_of d slot) then Some (slot_of d slot) else None)"

text \<open>
  The label series after the teams \<open>names\<close> have been processed: the two slots of every
  team whose fetch succeeded hold the values \<open>val\<close> of its summary, every other series is
  as before.
\<close>

definition series_after ::
  "(json \<Rightarrow> string \<Rightarrow> int) \<Rightarrow> upstream \<Rightarrow> string set \<Rightarrow> (string \<times> string \<rightharpoonup> int) \<Rightarrow> (string \<times> string \<rightharpoonup> int)" where
  "series_after val up names m =
     (\<lambda>(name, slot).
        if name \<in> names \<and> (slot = ''current'' \<or> slot = ''next'')
        then (case summary_of up name of
                None \<Rightarrow> m (name, slot)
              | Some d \<Rightarrow> Some (val d slot))
        else m (name, slot))"

text \<open>
  \<open>overlay reg d\<close> is the registry \<open>reg\<close> after the requests and the label series that
  \<open>d\<close> has on top of the fresh registry. \<open>gauges reg\<close> forgets the two request counters,
  which belong to the API client, and keeps the nine gauges.
\<close>

definition overlay :: "registry \<Rightarrow> registry \<Rightarrow> registry" where
  "overlay reg d =
     reg\<lparr>ONCALL_API_REQUESTS_TOTAL := ONCALL_API_REQUESTS_TOTAL reg + ONCALL_API_REQUESTS_TOTAL d,
         ONCALL_API_REQUESTS_FAILED_TOTAL :=
           ONCALL_API_REQUESTS_FAILED_TOTAL reg + ONCALL_API_REQUESTS_FAILED_TOTAL d,
         ONCALL_TEAM_ROTATION_STAFF_COUNT :=
           ONCALL_TEAM_ROTATION_STAFF_COUNT reg ++ ONCALL_TEAM_ROTATION_STAFF_COUNT d,
         ONCALL_TEAM_ROTATION_UNREACHABLE_BY_PHONE_COUNT :=
           ONCALL_TEAM_ROTATION_UNREACHABLE_BY_PHONE_COUNT reg ++
           ONCALL_TEAM_ROTATION_UNREACHABLE_BY_PHONE_COUNT d\<rparr>"

definition gauges :: "registry \<Rightarrow> registry" where
  "gauges reg = reg\<lparr>ONCALL_API_REQUESTS_TOTAL := 0, ONCALL_API_REQUESTS_FAILED_TOTAL := 0\<rparr>"

text \<open>
  The exceptions an updater raised, as a list with at most one element.
\<close>

definition raised :: "exn option \<Rightarrow> exn list" where
  "raised out = (case out of None \<Rightarrow> [] | Some e \<Rightarrow> [e])"

section \<open>Concrete registries and upstreams\<close>

text \<open>The registry at startup: counters and gauges at 0, no label series yet.\<close>

definition fresh_registry :: registry where
  "fresh_registry =
     \<lparr>ONCALL_API_REQUESTS_TOTAL = 0,
      ONCALL_API_REQUESTS_FAILED_TOTAL = 0,
      ONCALL_HEALTH_STATUS = 0,
      ONCALL_USERS_TOTAL = 0,
      ONCALL_USERS_WITHOUT_CONTACTS_GAUGE = 0,
      ONCALL_USERS_WITHOUT_PHONE_NUMBER = 0,
      ONCALL_TEAMS_TOTAL = 0,
      ONCALL_TEAMS_UNDERSTAFFED = 0,
      ONCALL_TEAM_ROTATION_STAFF_COUNT = Map.empty,
      ONCALL_TEAMS_TOTAL_UNREACHABLE_BY_PHONE = 0,
      ONCALL_TEAM_ROTATION_UNREACHABLE_BY_PHONE_COUNT = Map.empty\<rparr>"

text \<open>A registry left by earlier passes, every gauge holding a value other than 0.\<close>

definition stale_registry :: registry where
  "stale_registry =
     \<lparr>ONCALL_API_REQUESTS_TOTAL = 40,
      ONCALL_API_REQUESTS_FAILED_TOTAL = 3,
      ONCALL_HEALTH_STATUS = 1,
      ONCALL_USERS_TOTAL = 7,
      ONCALL_USERS_WITHOUT_CONTACTS_GAUGE = 2,
      ONCALL_USERS_WITHOUT_PHONE_NUMBER = 4,
      ONCALL_TEAMS_TOTAL = 5,
      ONCALL_TEAMS_UNDERSTAFFED = 1,
      ONCALL_TEAM_ROTATION_STAFF_COUNT = [(''b'', ''current'') \<mapsto> 6],
      ONCALL_TEAMS_TOTAL_UNREACHABLE_BY_PHONE = 1,
      ONCALL_TEAM_ROTATION_UNREACHABLE_BY_PHONE_COUNT = [(''b'', ''current'') \<mapsto> 1]\<rparr>"

text \<open>The status codes \<open>200 .. 299\<close>, the "2xx-style" statuses of the specification.\<close>

definition is_2xx :: "int \<Rightarrow> bool" where
  "is_2xx code = (200 \<le> code \<and> code < 300)"

text \<open>An upstream that answers every request with 204 No Content.\<close>

definition no_content_upstream :: upstream where
  "no_content_upstream path = Inr \<lparr>status_code = 204, body = None\<rparr>"

text \<open>An upstream that answers every request with 503 Service Unavailable.\<close>

definition unavailable_upstream :: upstream where
  "unavailable_upstream path = Inr \<lparr>status_code = 503, body = None\<rparr>"

text \<open>
  A user list: no contacts at all, an email address only, a phone number.
\<close>

definition sample_users :: "json list" where
  "sample_users =
     [JObj [(''name'', JStr ''ann''), (''contacts'', JObj [])],
      JObj [(''name'', JStr ''bob''), (''contacts'', JObj [(''email'', JStr ''x'')])],
      JObj [(''name'', JStr ''cy''), (''contacts'', JObj [(''call'', JStr ''+1''), (''email'', JStr ''y'')])]]"

definition users_upstream :: upstream where
  "users_upstream path =
     (if path = ''/api/v0/users'' then Inr \<lparr>status_code = 200, body = Some (JArr sample_users)\<rparr>
      else Inr \<lparr>status_code = 404, body = None\<rparr>)"

text \<open>
  An upstream that refuses every connection, and one that answers 200 with a body that
  is not JSON.
\<close>

definition refusing_upstream :: upstream where
  "refusing_upstream path = Inl RequestException"

definition garbled_upstream :: upstream where
  "garbled_upstream path = Inr \<lparr>status_code = 200, body = None\<rparr>"

text \<open>
  A rendering of the values that are not strings.
\<close>

definition sample_fmt :: "json \<Rightarrow> string" where
  "sample_fmt x = ''?''"

text \<open>
  Members with and without a phone number, and the summaries of five teams: \<open>a\<close> has
  three members with a phone on the current slot and no next slot; the fetch for \<open>b\<close>
  fails; \<open>c\<close> has one member with a phone on the current slot and two members without
  a phone on the next; \<open>d\<close> has a current event with no members and no next slot; \<open>e\<close>
  has neither slot.
\<close>

definition member_with_phone :: json where
  "member_with_phone =
     JObj [(''user_contacts'', JObj [(''call'', JStr ''+100''), (''email'', JStr ''m'')])]"

definition member_without_phone :: json where
  "member_without_phone = JObj [(''user_contacts'', JObj [(''email'', JStr ''m'')])]"

definition summary_a :: json where
  "summary_a =
     JObj [(''current'', JObj [(''primary'', JArr [member_with_phone, member_with_phone]),
                               (''secondary'', JArr [member_with_phone])]),
           (''next'', JNull)]"

definition summary_c :: json where
  "summary_c =
     JObj [(''current'', JObj [(''primary'', JArr [member_with_phone]), (''secondary'', JArr [])]),
           (''next'', JObj [(''primary'', JArr [member_without_phone]),
                            (''secondary'', JArr [member_without_phone])])]"

definition summary_d :: json where
  "summary_d =
     JObj [(''current'', JObj [(''primary'', JArr []), (''secondary'', JArr [])]),
           (''next'', JNull)]"

definition summary_e :: json where
  "summary_e = JObj [(''current'', JNull), (''next'', JNull)]"

definition sample_teams :: "json list" where
  "sample_teams = [JStr ''a'', JStr ''b'', JStr ''c'', JStr ''d'', JStr ''e'']"

definition teams_upstream :: upstream where
  "teams_upstream path =
     (if path = ''/api/v0/teams'' then Inr \<lparr>status_code = 200, body = Some (JArr sample_teams)\<rparr>
      else if path = ''/api/v0/teams/a/summary'' then Inr \<lparr>status_code = 200, body = Some summary_a\<rparr>
      else if path = ''/api/v0/teams/c/summary'' then Inr \<lparr>status_code = 200, body = Some summary_c\<rparr>
      else if path = ''/api/v0/teams/d/summary'' then Inr \<lparr>status_code = 200, body = Some summary_d\<rparr>
      else if path = ''/api/v0/teams/e/summary'' then Inr \<lparr>status_code = 200, body = Some summary_e\<rparr>
      else Inr \<lparr>status_code = 503, body = None\<rparr>)"

section \<open>Auxiliary facts\<close>

subsection \<open>Requests\<close>

lemma request_with_counting_eq:
  "request_with_counting up path reg =
     (up path,
      reg\<lparr>ONCALL_API_REQUESTS_TOTAL := ONCALL_API_REQUESTS_TOTAL reg + 1,
          ONCALL_API_REQUESTS_FAILED_TOTAL :=
            ONCALL_API_REQUESTS_FAILED_TOTAL reg +
              (case up path of
                 Inl e \<Rightarrow> 0
               | Inr resp \<Rightarrow> if status_code resp \<noteq> 200 then 1 else 0)\<rparr>)"
  by (simp add: request_with_counting_def Let_def split: sum.splits)

lemma request_with_counting_delta:
  "request_with_counting up path reg =
     (case request_with_counting up path fresh_registry of (x, r0) \<Rightarrow> (x, overlay reg r0))"
  by (simp add: request_with_counting_eq overlay_def fresh_registry_def)

subsection \<open>The exceptions of the Python operations\<close>

lemma py_getitem_raises: "py_getitem x k = Inl e \<Longrightarrow> is_Exception e"
  by (cases x) (auto split: option.splits)

lemma py_contains_raises: "py_contains k x = Inl e \<Longrightarrow> is_Exception e"
  by (cases x) auto

lemma py_len_raises: "py_len x = Inl e \<Longrightarrow> is_Exception e"
  by (cases x) auto

lemma py_iter_raises: "py_iter x = Inl e \<Longrightarrow> is_Exception e"
  by (cases x) auto

lemma py_add_raises: "py_add x y = Inl e \<Longrightarrow> is_Exception e"
  by (cases x; cases y) (auto split: if_splits)

lemma resp_json_raises: "resp_json resp = Inl e \<Longrightarrow> is_Exception e"
  by (auto simp: resp_json_def split: option.splits)

lemma no_call_no_sms_raises: "no_call_no_sms x k = Inl e \<Longrightarrow> is_Exception e"
  by (auto simp: no_call_no_sms_def split: sum.splits if_splits
      dest: py_getitem_raises py_contains_raises)

lemma user_body_raises: "user_body u acc = Inl e \<Longrightarrow> is_Exception e"
  by (auto simp: user_body_def split: sum.splits if_splits prod.splits bool.splits
      dest: py_getitem_raises no_call_no_sms_raises)

lemma users_loop_raises: "users_loop us acc = Inl e \<Longrightarrow> is_Exception e"
  by (induction us arbitrary: acc) (auto split: sum.splits dest: user_body_raises)

lemma members_without_number_raises: "members_without_number ms = Inl e \<Longrightarrow> is_Exception e"
  by (induction ms) (auto split: sum.splits dest: no_call_no_sms_raises)

lemma slot_body_raises: "slot_body fmt t d s st = Inl e \<Longrightarrow> is_Exception e"
  by (auto simp: slot_body_def split: sum.splits if_splits prod.splits
      dest: py_getitem_raises py_add_raises py_iter_raises py_len_raises
        members_without_number_raises)

lemma slots_loop_raises: "fst (slots_loop fmt t d slots st) = Some e \<Longrightarrow> is_Exception e"
  by (induction slots arbitrary: st) (auto split: sum.splits dest: slot_body_raises)

lemma slots_loop_raises_eq:
  "slots_loop fmt t d slots st = (Some e, st') \<Longrightarrow> is_Exception e"
  using slots_loop_raises [of fmt t d slots st e] by simp

lemma team_body_raises:
  assumes "fst (team_body fmt up t st) = Some e" and "\<And>path. up path \<noteq> Inl SystemExit"
  shows "is_Exception e"
proof -
  obtain reg us ur where st: "st = (reg, us, ur)" by (cases st)
  show ?thesis
  proof (cases "up (summary_path (py_str fmt t))")
    case (Inl e')
    with assms(1) have "e' = e" by (simp add: st team_body_def request_with_counting_eq)
    with Inl assms(2) show ?thesis by (cases e) auto
  next
    case (Inr resp)
    with assms(1) show ?thesis
      by (auto simp: st team_body_def request_with_counting_eq
          split: if_splits sum.splits prod.splits option.splits
          dest: resp_json_raises slots_loop_raises_eq simp del: slots_loop.simps)
  qed
qed

lemma teams_loop_raises:
  assumes "fst (teams_loop fmt up names st) = Some e" and "\<And>path. up path \<noteq> Inl SystemExit"
  shows "is_Exception e"
  using assms(1)
proof (induction names arbitrary: st)
  case Nil
  then show ?case by simp
next
  case (Cons t names)
  obtain out st' where b: "team_body fmt up t st = (out, st')" by (cases "team_body fmt up t st")
  show ?case
  proof (cases out)
    case None
    with Cons b show ?thesis by simp
  next
    case (Some e')
    with Cons.prems b have "e' = e" by simp
    with b Some team_body_raises [of fmt up t st e] assms(2) show ?thesis by simp
  qed
qed

lemma teams_loop_raises_eq:
  "teams_loop fmt up names st = (Some e, st') \<Longrightarrow> (\<And>path. up path \<noteq> Inl SystemExit) \<Longrightarrow>
   is_Exception e"
  using teams_loop_raises [of fmt up names st e] by simp

lemma upstream_raises:
  "up path = Inl e \<Longrightarrow> (\<And>path. up path \<noteq> Inl SystemExit) \<Longrightarrow> is_Exception e"
  by (cases e) auto

lemma health_raises:
  assumes "fst (health up reg) = Some e" and "\<And>path. up path \<noteq> Inl SystemExit"
  shows "is_Exception e"
  using assms(1) upstream_raises [of up "''/''" e] assms(2)
  by (auto simp: health_def request_with_counting_eq split: sum.splits if_splits)

lemma users_raises:
  assumes "fst (number_of_users_without_contacts up reg) = Some e"
    and "\<And>path. up path \<noteq> Inl SystemExit"
  shows "is_Exception e"
  using assms(1) upstream_raises [of up "''/api/v0/users''" e] assms(2)
  by (auto simp: number_of_users_without_contacts_def request_with_counting_eq Let_def
      split: sum.splits if_splits prod.splits
      dest: resp_json_raises py_len_raises py_iter_raises users_loop_raises)

lemma teams_raises:
  assumes "fst (teams fmt up reg) = Some e" and "\<And>path. up path \<noteq> Inl SystemExit"
  shows "is_Exception e"
  using assms(1) upstream_raises [of up "''/api/v0/teams''" e] assms(2)
  by (auto simp: teams_def request_with_counting_eq Let_def
      split: sum.splits if_splits prod.splits option.splits
      dest: resp_json_raises py_len_raises py_iter_raises teams_loop_raises_eq)

lemma updaters_raise:
  assumes "func \<in> set (updaters fmt)" and "fst (func up reg) = Some e"
    and "\<And>path. up path \<noteq> Inl SystemExit"
  shows "is_Exception e"
  using assms health_raises [of up reg e] users_raises [of up reg e] teams_raises [of fmt up reg e]
  by (auto simp: updaters_def)

subsection \<open>Every updater sends a request\<close>

lemma slot_body_total:
  "(case slot_body fmt t d s (reg, a, b) of
      Inl e \<Rightarrow> True
    | Inr (r, a', b') \<Rightarrow> ONCALL_API_REQUESTS_TOTAL r = ONCALL_API_REQUESTS_TOTAL reg)"
  by (simp add: slot_body_def split: sum.splits)

lemma slots_loop_total:
  "ONCALL_API_REQUESTS_TOTAL (fst (snd (slots_loop fmt t d slots (reg, a, b)))) =
   ONCALL_API_REQUESTS_TOTAL reg"
proof (induction slots arbitrary: reg a b)
  case Nil
  show ?case by simp
next
  case (Cons s slots)
  show ?case
  proof (cases "slot_body fmt t d s (reg, a, b)")
    case (Inl e)
    then show ?thesis by simp
  next
    case (Inr st)
    obtain reg' a' b' where st: "st = (reg', a', b')" by (cases st)
    with Inr Cons.IH [of reg' a' b'] slot_body_total [where fmt = fmt and t = t and d = d and s = s and reg = reg and a = a and b = b]
    show ?thesis by simp
  qed
qed

lemma team_body_total:
  "ONCALL_API_REQUESTS_TOTAL (fst (snd (team_body fmt up t (reg, us, ur)))) =
   ONCALL_API_REQUESTS_TOTAL reg + 1"
proof -
  obtain x r where q: "request_with_counting up (summary_path (py_str fmt t)) reg = (x, r)"
    by (cases "request_with_counting up (summary_path (py_str fmt t)) reg")
  then have r: "ONCALL_API_REQUESTS_TOTAL r = ONCALL_API_REQUESTS_TOTAL reg + 1"
    by (auto simp: request_with_counting_eq)
  show ?thesis
  proof (cases x)
    case (Inl e)
    then show ?thesis by (simp add: team_body_def q r)
  next
    case (Inr resp)
    show ?thesis
    proof (cases "body resp")
      case None
      with Inr show ?thesis by (simp add: team_body_def q r resp_json_def)
    next
      case (Some d)
      obtain out r' a b where
        l: "slots_loop fmt t d [''current'', ''next''] (r, False, False) = (out, (r', a, b))"
        by (metis prod_cases3)
      from slots_loop_total [of fmt t d "[''current'', ''next'']" r False False]
      have "ONCALL_API_REQUESTS_TOTAL r' = ONCALL_API_REQUESTS_TOTAL r"
        unfolding l by simp
      with Inr Some r show ?thesis
        by (cases out) (simp_all add: team_body_def q resp_json_def l del: slots_loop.simps)
    qed
  qed
qed

lemma teams_loop_total:
  "ONCALL_API_REQUESTS_TOTAL reg \<le>
   ONCALL_API_REQUESTS_TOTAL (fst (snd (teams_loop fmt up names (reg, us, ur))))"
proof (induction names arbitrary: reg us ur)
  case Nil
  show ?case by simp
next
  case (Cons t names)
  obtain out reg' us' ur' where b: "team_body fmt up t (reg, us, ur) = (out, (reg', us', ur'))"
    by (metis prod_cases3)
  from team_body_total [of fmt up t reg us ur]
  have t: "ONCALL_API_REQUESTS_TOTAL reg' = ONCALL_API_REQUESTS_TOTAL reg + 1"
    unfolding b by simp
  show ?case
  proof (cases out)
    case None
    with b t Cons.IH [of reg' us' ur'] show ?thesis by simp
  next
    case (Some e)
    with b t show ?thesis by simp
  qed
qed

lemma health_total:
  "ONCALL_API_REQUESTS_TOTAL (snd (health up reg)) = ONCALL_API_REQUESTS_TOTAL reg + 1"
  by (simp add: health_def request_with_counting_eq split: sum.splits)

lemma users_total:
  "ONCALL_API_REQUESTS_TOTAL (snd (number_of_users_without_contacts up reg)) =
   ONCALL_API_REQUESTS_TOTAL reg + 1"
  by (simp add: number_of_users_without_contacts_def request_with_counting_eq Let_def
      split: sum.splits prod.splits)

lemma teams_total:
  "ONCALL_API_REQUESTS_TOTAL reg + 1 \<le> ONCALL_API_REQUESTS_TOTAL (snd (teams fmt up reg))"
proof -
  obtain x r where q: "request_with_counting up ''/api/v0/teams'' reg = (x, r)"
    by (cases "request_with_counting up ''/api/v0/teams'' reg")
  then have r: "ONCALL_API_REQUESTS_TOTAL r = ONCALL_API_REQUESTS_TOTAL reg + 1"
    by (auto simp: request_with_counting_eq)
  show ?thesis
  proof (cases x)
    case (Inl e)
    then show ?thesis by (simp add: teams_def q r)
  next
    case resp: (Inr resp)
    show ?thesis
    proof (cases "resp_json resp")
      case (Inl e)
      with resp show ?thesis by (simp add: teams_def q r)
    next
      case v: (Inr v)
      show ?thesis
      proof (cases "py_len v")
        case (Inl e)
        with resp v show ?thesis by (simp add: teams_def q r)
      next
        case n: (Inr n)
        show ?thesis
        proof (cases "py_iter v")
          case (Inl e)
          with resp v n show ?thesis by (simp add: teams_def q r Let_def)
        next
          case names: (Inr names)
          obtain out r2 a b where
            l: "teams_loop fmt up names (r\<lparr>ONCALL_TEAMS_TOTAL := n\<rparr>, 0, 0) = (out, (r2, a, b))"
            by (metis prod_cases3)
          from teams_loop_total [of "r\<lparr>ONCALL_TEAMS_TOTAL := n\<rparr>" fmt up names 0 0]
          have "ONCALL_API_REQUESTS_TOTAL r \<le> ONCALL_API_REQUESTS_TOTAL r2"
            unfolding l by simp
          with resp v n names r show ?thesis
            by (cases out) (simp_all add: teams_def q Let_def l)
        qed
      qed
    qed
  qed
qed

lemma updaters_total:
  assumes "func \<in> set (updaters fmt)"
  shows "ONCALL_API_REQUESTS_TOTAL reg + 1 \<le> ONCALL_API_REQUESTS_TOTAL (snd (func up reg))"
  using assms health_total [of up reg] users_total [of up reg] teams_total [of reg fmt up]
  by (auto simp: updaters_def)

subsection \<open>Passes of the scheduler loop\<close>

lemma run_updaters_isolated:
  assumes "\<And>path. up path \<noteq> Inl SystemExit" and "set fs \<subseteq> set (updaters fmt)"
  shows "fst (run_updaters fs up (reg, logged)) = None \<and>
         ONCALL_API_REQUESTS_TOTAL reg + int (length fs) \<le>
           ONCALL_API_REQUESTS_TOTAL (fst (snd (run_updaters fs up (reg, logged))))"
  using assms(2)
proof (induction fs arbitrary: reg logged)
  case Nil
  show ?case by simp
next
  case (Cons func fs)
  then have m: "func \<in> set (updaters fmt)" and s: "set fs \<subseteq> set (updaters fmt)" by simp_all
  obtain out reg' where f: "func up reg = (out, reg')" by (cases "func up reg")
  from updaters_total [OF m, of reg up] f
  have t: "ONCALL_API_REQUESTS_TOTAL reg + 1 \<le> ONCALL_API_REQUESTS_TOTAL reg'" by simp
  show ?case
  proof (cases out)
    case None
    with f t Cons.IH [OF s, of reg' logged] show ?thesis by simp
  next
    case (Some e)
    with updaters_raise [OF m, of up reg e] f assms(1) have "is_Exception e" by simp
    with Some f t Cons.IH [OF s, of reg' "logged @ [e]"] show ?thesis by simp
  qed
qed

lemma run_updaters_each:
  assumes "\<And>path. up path \<noteq> Inl SystemExit"
  shows "run_updaters (updaters fmt) up (reg, logged) =
           (let (e1, r1) = health up reg;
                (e2, r2) = number_of_users_without_contacts up r1;
                (e3, r3) = teams fmt up r2
            in (None, (r3, logged @ raised e1 @ raised e2 @ raised e3)))"
proof -
  obtain e1 r1 where h: "health up reg = (e1, r1)" by (cases "health up reg")
  obtain e2 r2 where u: "number_of_users_without_contacts up r1 = (e2, r2)"
    by (cases "number_of_users_without_contacts up r1")
  obtain e3 r3 where t: "teams fmt up r2 = (e3, r3)" by (cases "teams fmt up r2")
  have i1: "is_Exception e" if "e1 = Some e" for e
    using health_raises [of up reg e] h that assms by simp
  have i2: "is_Exception e" if "e2 = Some e" for e
    using users_raises [of up r1 e] u that assms by simp
  have i3: "is_Exception e" if "e3 = Some e" for e
    using teams_raises [of fmt up r2 e] t that assms by simp
  show ?thesis
    by (cases e1; cases e2; cases e3) (simp_all add: updaters_def h u t raised_def i1 i2 i3)
qed

lemma main_loop_isolated:
  assumes "\<forall>up\<in>set ups. \<forall>path. up path \<noteq> Inl SystemExit"
  shows "fst (main_loop (updaters fmt) ups (reg, logged)) = None \<and>
         ONCALL_API_REQUESTS_TOTAL reg + 3 * int (length ups) \<le>
           ONCALL_API_REQUESTS_TOTAL (fst (snd (main_loop (updaters fmt) ups (reg, logged))))"
  using assms
proof (induction ups arbitrary: reg logged)
  case Nil
  show ?case by simp
next
  case (Cons up ups)
  then have n: "\<And>path. up path \<noteq> Inl SystemExit"
    and r: "\<forall>up\<in>set ups. \<forall>path. up path \<noteq> Inl SystemExit" by simp_all
  obtain out reg' logged' where
    p: "run_updaters (updaters fmt) up (reg, logged) = (out, (reg', logged'))"
    by (metis prod_cases3)
  from run_updaters_isolated [of up "updaters fmt" fmt reg logged, OF n] p
  have o: "out = None" and t: "ONCALL_API_REQUESTS_TOTAL reg + 3 \<le> ONCALL_API_REQUESTS_TOTAL reg'"
    by (simp_all add: updaters_def)
  from Cons.IH [OF r, of reg' logged'] p o t show ?case by simp
qed

subsection \<open>Users and members that follow the schema\<close>

lemma no_call_no_sms_mapping:
  assumes "field x k = Some c" and "is_mapping c"
  shows "no_call_no_sms x k = Inr (\<not> has_phone c)"
  using assms
  by (cases x; cases c) (auto simp: field_def is_mapping_def no_call_no_sms_def has_phone_def keys_def)

lemma user_body_is_user:
  assumes "is_user user"
  shows "user_body user (f, p) =
           Inr (f + (if contacts_of user = JObj [] then 1 else 0),
                p + (if has_phone (contacts_of user) then 0 else 1))"
proof -
  from assms obtain kvs nm c where u: "user = JObj kvs" "map_of kvs ''name'' = Some nm"
    "map_of kvs ''contacts'' = Some (JObj c)"
    by (cases user; cases "contacts_of user")
       (auto simp: is_user_def field_def contacts_of_def is_mapping_def split: option.splits)
  then have f: "field user ''contacts'' = Some (JObj c)" "contacts_of user = JObj c"
    by (simp_all add: field_def contacts_of_def)
  have n: "no_call_no_sms user ''contacts'' = Inr (\<not> has_phone (JObj c))"
    using f(1) by (rule no_call_no_sms_mapping) (simp add: is_mapping_def)
  show ?thesis
    using u n f by (simp add: user_body_def)
qed

lemma users_loop_is_user:
  assumes "list_all is_user users"
  shows "users_loop users (f, p) =
           Inr (f + int (length (filter (\<lambda>u. contacts_of u = JObj []) users)),
                p + int (length (filter (\<lambda>u. \<not> has_phone (contacts_of u)) users)))"
  using assms
  by (induction users arbitrary: f p) (simp_all add: user_body_is_user)

lemma sample_users_ok: "list_all is_user sample_users"
  by (simp add: sample_users_def is_user_def field_def contacts_of_def is_mapping_def)

lemma members_without_number_members:
  assumes "list_all is_member ms"
  shows "members_without_number ms = Inr (filter lacks_phone ms)"
  using assms
proof (induction ms)
  case Nil
  then show ?case by simp
next
  case (Cons m ms)
  from Cons.prems have "is_mapping (member_contacts m)" by (simp add: is_member_def)
  then obtain c where "field m ''user_contacts'' = Some c" "is_mapping c" "member_contacts m = c"
    by (auto simp: member_contacts_def is_mapping_def split: option.splits)
  then have "no_call_no_sms m ''user_contacts'' = Inr (lacks_phone m)"
    by (simp add: no_call_no_sms_mapping lacks_phone_def)
  with Cons show ?case by simp
qed

lemma list_field_SomeD:
  assumes "list_field x k = Some xs"
  obtains kvs where "x = JObj kvs" "map_of kvs k = Some (JArr xs)"
proof (cases x)
  case (JObj kvs)
  with assms have "map_of kvs k = Some (JArr xs)"
    by (simp add: list_field_def field_def split: option.splits json.splits)
  with JObj show thesis by (rule that)
qed (use assms in \<open>simp_all add: list_field_def field_def\<close>)

lemma is_event_shape:
  assumes "is_event ev"
  obtains kvs ps ss where "ev = JObj kvs" "map_of kvs ''primary'' = Some (JArr ps)"
    "map_of kvs ''secondary'' = Some (JArr ss)" "list_all is_member (ps @ ss)"
    "event_members ev = ps @ ss" "truthy ev"
proof -
  from assms obtain ps ss where f: "list_field ev ''primary'' = Some ps"
    "list_field ev ''secondary'' = Some ss"
    by (auto simp: is_event_def)
  then have m: "event_members ev = ps @ ss" by (simp add: event_members_def)
  with assms have a: "list_all is_member (ps @ ss)" by (simp add: is_event_def)
  from f(1) obtain kvs where k: "ev = JObj kvs" "map_of kvs ''primary'' = Some (JArr ps)"
    by (rule list_field_SomeD)
  from f(2) k(1) have s: "map_of kvs ''secondary'' = Some (JArr ss)"
    by (auto elim: list_field_SomeD)
  from k have "kvs \<noteq> []" by auto
  with k s a m show thesis by (intro that [of kvs ps ss]) simp_all
qed

lemma slot_body_is_slot:
  assumes "is_slot d s"
  shows "slot_body fmt t d s (reg, a, b) =
           Inr (reg\<lparr>ONCALL_TEAM_ROTATION_STAFF_COUNT :=
                       (ONCALL_TEAM_ROTATION_STAFF_COUNT reg)((py_str fmt t, s) \<mapsto> slot_staff d s),
                     ONCALL_TEAM_ROTATION_UNREACHABLE_BY_PHONE_COUNT :=
                       (ONCALL_TEAM_ROTATION_UNREACHABLE_BY_PHONE_COUNT reg)
                         ((py_str fmt t, s) \<mapsto> slot_unreachable d s)\<rparr>,
                a \<or> slot_understaffed d s, b \<or> slot_all_unreachable d s)"
proof -
  from assms obtain v where v: "field d s = Some v" "truthy v \<Longrightarrow> is_event v"
    by (auto simp: is_slot_def split: option.splits if_splits)
  then obtain dk where d: "d = JObj dk" "map_of dk s = Some v"
    by (cases d) (auto simp: field_def)
  have so: "slot_of d s = v" using v by (simp add: slot_of_def)
  have g: "py_getitem d s = Inr v" using d by simp
  show ?thesis
  proof (cases "truthy v")
    case False
    then show ?thesis
      by (simp add: slot_body_def g so slot_staff_def slot_unreachable_def slot_understaffed_def
          slot_all_unreachable_def)
  next
    case True
    from v(2) [OF True] obtain kvs ps ss where e: "v = JObj kvs"
      "map_of kvs ''primary'' = Some (JArr ps)" "map_of kvs ''secondary'' = Some (JArr ss)"
      "list_all is_member (ps @ ss)" "event_members v = ps @ ss"
      by (rule is_event_shape)
    have m: "members_without_number (ps @ ss) = Inr (filter lacks_phone (ps @ ss))"
      using e(4) by (rule members_without_number_members)
    have p: "py_getitem v ''primary'' = Inr (JArr ps)" "py_getitem v ''secondary'' = Inr (JArr ss)"
      using e by simp_all
    have l: "(int (length ps) + int (length ss) < 2) = (length ps + length ss < 2)" by linarith
    show ?thesis
      by (simp add: slot_body_def g so True p m e(5) l slot_staff_def slot_unreachable_def
          slot_understaffed_def slot_all_unreachable_def del: filter_append)
  qed
qed

lemma slots_loop_is_summary:
  assumes "is_summary d"
  shows "slots_loop fmt t d [''current'', ''next''] (reg, False, False) =
           (None,
            (reg\<lparr>ONCALL_TEAM_ROTATION_STAFF_COUNT :=
                    (ONCALL_TEAM_ROTATION_STAFF_COUNT reg)
                      ((py_str fmt t, ''current'') \<mapsto> slot_staff d ''current'',
                       (py_str fmt t, ''next'') \<mapsto> slot_staff d ''next''),
                  ONCALL_TEAM_ROTATION_UNREACHABLE_BY_PHONE_COUNT :=
                    (ONCALL_TEAM_ROTATION_UNREACHABLE_BY_PHONE_COUNT reg)
                      ((py_str fmt t, ''current'') \<mapsto> slot_unreachable d ''current'',
                       (py_str fmt t, ''next'') \<mapsto> slot_unreachable d ''next'')\<rparr>,
             slot_understaffed d ''current'' \<or> slot_understaffed d ''next'',
             slot_all_unreachable d ''current'' \<or> slot_all_unreachable d ''next''))"
  using assms by (simp add: is_summary_def slot_body_is_slot)

lemma null_slots_summary:
  assumes "field d ''current'' = Some JNull" and "field d ''next'' = Some JNull"
  shows "is_summary d"
    and "slot_staff d ''current'' = 0" and "slot_staff d ''next'' = 0"
    and "slot_unreachable d ''current'' = 0" and "slot_unreachable d ''next'' = 0"
    and "\<not> slot_understaffed d ''current''" and "\<not> slot_understaffed d ''next''"
    and "\<not> slot_all_unreachable d ''current''" and "\<not> slot_all_unreachable d ''next''"
  using assms
  by (simp_all add: is_summary_def is_slot_def slot_staff_def slot_unreachable_def
      slot_understaffed_def slot_all_unreachable_def slot_of_def)

lemma empty_event_slot:
  assumes "field d slot = Some ev" and "list_field ev ''primary'' = Some []"
    and "list_field ev ''secondary'' = Some []"
  shows "is_slot d slot" and "slot_staff d slot = 0" and "slot_unreachable d slot = 0"
    and "slot_understaffed d slot" and "slot_all_unreachable d slot"
proof -
  have e: "is_event ev" "event_members ev = []"
    using assms(2,3) by (simp_all add: is_event_def event_members_def)
  then have t: "truthy ev" by (auto elim: is_event_shape)
  from assms(1) e t show "is_slot d slot" and "slot_staff d slot = 0"
    and "slot_unreachable d slot = 0" and "slot_understaffed d slot"
    and "slot_all_unreachable d slot"
    by (simp_all add: is_slot_def slot_staff_def slot_unreachable_def slot_understaffed_def
        slot_all_unreachable_def slot_of_def)
qed

lemma falsy_slot:
  assumes "field d slot = Some v" and "\<not> truthy v"
  shows "is_slot d slot" and "slot_staff d slot = 0" and "slot_unreachable d slot = 0"
    and "\<not> slot_understaffed d slot" and "\<not> slot_all_unreachable d slot"
  using assms
  by (simp_all add: is_slot_def slot_staff_def slot_unreachable_def slot_understaffed_def
      slot_all_unreachable_def slot_of_def)

subsection \<open>Teams that follow the schema\<close>

lemma series_after_empty [simp]: "series_after val up {} m = m"
  by (simp add: series_after_def fun_eq_iff)

lemma series_after_insert_None:
  "summary_of up n = None \<Longrightarrow> series_after val up (insert n A) m = series_after val up A m"
  by (auto simp: series_after_def fun_eq_iff)

lemma series_after_insert_Some:
  "summary_of up n = Some d \<Longrightarrow>
   series_after val up (insert n A) m =
     series_after val up A (m((n, ''current'') \<mapsto> val d ''current'', (n, ''next'') \<mapsto> val d ''next''))"
  by (auto simp: series_after_def fun_eq_iff split: option.splits)

lemma series_after_union:
  "series_after val up A (series_after val up B m) = series_after val up (B \<union> A) m"
  by (auto simp: series_after_def fun_eq_iff split: option.splits)

lemma team_body_ok:
  assumes "team_ok up (py_str fmt t)"
  shows "\<exists>reg'. team_body fmt up t (reg, us, ur) =
           (None, (reg',
                   us + (if team_understaffed up (py_str fmt t) then 1 else 0),
                   ur + (if team_unreachable up (py_str fmt t) then 1 else 0))) \<and>
         ONCALL_TEAM_ROTATION_STAFF_COUNT reg' =
           series_after slot_staff up {py_str fmt t} (ONCALL_TEAM_ROTATION_STAFF_COUNT reg) \<and>
         ONCALL_TEAM_ROTATION_UNREACHABLE_BY_PHONE_COUNT reg' =
           series_after slot_unreachable up {py_str fmt t}
             (ONCALL_TEAM_ROTATION_UNREACHABLE_BY_PHONE_COUNT reg)"
proof -
  from assms obtain resp where r: "up (summary_path (py_str fmt t)) = Inr resp"
    by (auto simp: team_ok_def split: sum.splits)
  show ?thesis
  proof (cases "status_code resp = 200")
    case False
    then have "summary_of up (py_str fmt t) = None" using r by (simp add: summary_of_def)
    then show ?thesis
      using r False
      by (simp add: team_body_def request_with_counting_def Let_def team_understaffed_def
          team_unreachable_def series_after_insert_None)
  next
    case True
    with assms r obtain d where d: "body resp = Some d" "is_summary d"
      by (auto simp: team_ok_def split: option.splits)
    then have s: "summary_of up (py_str fmt t) = Some d" using r True by (simp add: summary_of_def)
    show ?thesis
      using r True d(1)
      by (simp add: team_body_def request_with_counting_def Let_def resp_json_def
          slots_loop_is_summary [OF d(2)] team_understaffed_def team_unreachable_def s
          series_after_insert_Some [OF s] del: slots_loop.simps)
  qed
qed

lemma teams_loop_ok:
  assumes "list_all (\<lambda>t. team_ok up (py_str fmt t)) names"
  shows "\<exists>reg'. teams_loop fmt up names (reg, us, ur) =
           (None, (reg',
                   us + int (length (filter (\<lambda>t. team_understaffed up (py_str fmt t)) names)),
                   ur + int (length (filter (\<lambda>t. team_unreachable up (py_str fmt t)) names)))) \<and>
         ONCALL_TEAM_ROTATION_STAFF_COUNT reg' =
           series_after slot_staff up (py_str fmt ` set names) (ONCALL_TEAM_ROTATION_STAFF_COUNT reg) \<and>
         ONCALL_TEAM_ROTATION_UNREACHABLE_BY_PHONE_COUNT reg' =
           series_after slot_unreachable up (py_str fmt ` set names)
             (ONCALL_TEAM_ROTATION_UNREACHABLE_BY_PHONE_COUNT reg)"
  using assms
proof (induction names arbitrary: reg us ur)
  case Nil
  then show ?case by simp
next
  case (Cons t names)
  from Cons.prems have ok: "team_ok up (py_str fmt t)"
    and rest: "list_all (\<lambda>t. team_ok up (py_str fmt t)) names" by simp_all
  let ?us = "us + (if team_understaffed up (py_str fmt t) then 1 else 0)"
  let ?ur = "ur + (if team_unreachable up (py_str fmt t) then 1 else 0)"
  from team_body_ok [OF ok, of reg us ur] obtain reg1 where
    b: "team_body fmt up t (reg, us, ur) = (None, (reg1, ?us, ?ur))"
    and s1: "ONCALL_TEAM_ROTATION_STAFF_COUNT reg1 =
           series_after slot_staff up {py_str fmt t} (ONCALL_TEAM_ROTATION_STAFF_COUNT reg)"
    and u1: "ONCALL_TEAM_ROTATION_UNREACHABLE_BY_PHONE_COUNT reg1 =
           series_after slot_unreachable up {py_str fmt t}
             (ONCALL_TEAM_ROTATION_UNREACHABLE_BY_PHONE_COUNT reg)"
    by blast
  from Cons.IH [OF rest, of reg1 ?us ?ur] obtain reg2 where
    l: "teams_loop fmt up names (reg1, ?us, ?ur) =
          (None, (reg2,
             ?us + int (length (filter (\<lambda>t. team_understaffed up (py_str fmt t)) names)),
             ?ur + int (length (filter (\<lambda>t. team_unreachable up (py_str fmt t)) names))))"
    and s2: "ONCALL_TEAM_ROTATION_STAFF_COUNT reg2 =
           series_after slot_staff up (py_str fmt ` set names)
             (ONCALL_TEAM_ROTATION_STAFF_COUNT reg1)"
    and u2: "ONCALL_TEAM_ROTATION_UNREACHABLE_BY_PHONE_COUNT reg2 =
           series_after slot_unreachable up (py_str fmt ` set names)
             (ONCALL_TEAM_ROTATION_UNREACHABLE_BY_PHONE_COUNT reg1)"
    by blast
  have "teams_loop fmt up (t # names) (reg, us, ur) =
          (None, (reg2,
             us + int (length (filter (\<lambda>t. team_understaffed up (py_str fmt t)) (t # names))),
             ur + int (length (filter (\<lambda>t. team_unreachable up (py_str fmt t)) (t # names)))))"
    by (simp add: b l)
  moreover have "ONCALL_TEAM_ROTATION_STAFF_COUNT reg2 =
      series_after slot_staff up (py_str fmt ` set (t # names)) (ONCALL_TEAM_ROTATION_STAFF_COUNT reg)"
    by (simp add: s2 s1 series_after_union)
  moreover have "ONCALL_TEAM_ROTATION_UNREACHABLE_BY_PHONE_COUNT reg2 =
      series_after slot_unreachable up (py_str fmt ` set (t # names))
        (ONCALL_TEAM_ROTATION_UNREACHABLE_BY_PHONE_COUNT reg)"
    by (simp add: u2 u1 series_after_union)
  ultimately show ?case by blast
qed

lemma team_body_not_200:
  assumes "up (summary_path (py_str fmt t)) = Inr resp" and "status_code resp \<noteq> 200"
  shows "team_body fmt up t (reg, us, ur) =
           (None,
            (reg\<lparr>ONCALL_API_REQUESTS_TOTAL := ONCALL_API_REQUESTS_TOTAL reg + 1,
                 ONCALL_API_REQUESTS_FAILED_TOTAL := ONCALL_API_REQUESTS_FAILED_TOTAL reg + 1\<rparr>,
             us, ur))"
  using assms by (simp add: team_body_def request_with_counting_eq)

lemma team_body_summary:
  assumes "up (summary_path (py_str fmt t)) = Inr resp" and "status_code resp = 200"
    and "body resp = Some d" and "is_summary d"
  shows "team_body fmt up t (reg, us, ur) =
           (None,
            (reg\<lparr>ONCALL_API_REQUESTS_TOTAL := ONCALL_API_REQUESTS_TOTAL reg + 1,
                 ONCALL_TEAM_ROTATION_STAFF_COUNT :=
                   (ONCALL_TEAM_ROTATION_STAFF_COUNT reg)
                     ((py_str fmt t, ''current'') \<mapsto> slot_staff d ''current'',
                      (py_str fmt t, ''next'') \<mapsto> slot_staff d ''next''),
                 ONCALL_TEAM_ROTATION_UNREACHABLE_BY_PHONE_COUNT :=
                   (ONCALL_TEAM_ROTATION_UNREACHABLE_BY_PHONE_COUNT reg)
                     ((py_str fmt t, ''current'') \<mapsto> slot_unreachable d ''current'',
                      (py_str fmt t, ''next'') \<mapsto> slot_unreachable d ''next'')\<rparr>,
             us + (if slot_understaffed d ''current'' \<or> slot_understaffed d ''next'' then 1 else 0),
             ur + (if slot_all_unreachable d ''current'' \<or> slot_all_unreachable d ''next''
                   then 1 else 0)))"
  using assms(1-3)
  by (simp add: team_body_def request_with_counting_eq resp_json_def
      slots_loop_is_summary [OF assms(4)] del: slots_loop.simps)

lemma team_understaffed_iff:
  "team_understaffed up name \<longleftrightarrow>
     (\<exists>slot\<in>{''current'', ''next''}. \<exists>ev.
        slot_event up name slot = Some ev \<and> length (event_members ev) < 2)"
  by (auto simp: team_understaffed_def slot_event_def slot_understaffed_def
      split: option.splits if_splits)

lemma team_unreachable_iff:
  "team_unreachable up name \<longleftrightarrow>
     (\<exists>slot\<in>{''current'', ''next''}. \<exists>ev.
        slot_event up name slot = Some ev \<and>
        filter lacks_phone (event_members ev) = event_members ev)"
  by (auto simp: team_unreachable_def slot_event_def slot_all_unreachable_def
      split: option.splits if_splits)

lemma series_after_slot_event:
  assumes "name \<in> names" and "slot = ''current'' \<or> slot = ''next''"
    and "slot_event up name slot = Some ev"
  shows "series_after slot_staff up names m (name, slot) = Some (int (length (event_members ev)))"
    and "series_after slot_unreachable up names m (name, slot) =
           Some (int (length (filter lacks_phone (event_members ev))))"
  using assms
  by (auto simp: series_after_def slot_event_def slot_staff_def slot_unreachable_def
      split: option.splits if_splits)

lemma sample_teams_ok: "list_all (\<lambda>t. team_ok teams_upstream (py_str sample_fmt t)) sample_teams"
  by (simp add: sample_teams_def team_ok_def teams_upstream_def py_str_def summary_path_def
      is_summary_def is_slot_def field_def summary_a_def summary_c_def summary_d_def summary_e_def
      is_event_def list_field_def event_members_def is_member_def member_contacts_def
      is_mapping_def member_with_phone_def member_without_phone_def)

lemma sample_slot_events:
  "slot_event teams_upstream ''a'' ''current'' =
     Some (JObj [(''primary'', JArr [member_with_phone, member_with_phone]),
                 (''secondary'', JArr [member_with_phone])])"
  "slot_event teams_upstream ''a'' ''next'' = None"
  "slot_event teams_upstream ''b'' slot = None"
  "slot_event teams_upstream ''c'' ''current'' =
     Some (JObj [(''primary'', JArr [member_with_phone]), (''secondary'', JArr [])])"
  "slot_event teams_upstream ''c'' ''next'' =
     Some (JObj [(''primary'', JArr [member_without_phone]),
                 (''secondary'', JArr [member_without_phone])])"
  "slot_event teams_upstream ''d'' ''current'' =
     Some (JObj [(''primary'', JArr []), (''secondary'', JArr [])])"
  "slot_event teams_upstream ''d'' ''next'' = None"
  "slot_event teams_upstream ''e'' ''current'' = None"
  "slot_event teams_upstream ''e'' ''next'' = None"
  by (simp_all add: slot_event_def summary_of_def teams_upstream_def summary_path_def slot_of_def
      field_def summary_a_def summary_c_def summary_d_def summary_e_def)

lemma sample_members:
  "event_members (JObj [(''primary'', JArr ps), (''secondary'', JArr ss)]) = ps @ ss"
  "lacks_phone member_without_phone" "\<not> lacks_phone member_with_phone"
  by (simp_all add: event_members_def list_field_def field_def lacks_phone_def has_phone_def
      keys_def member_contacts_def member_with_phone_def member_without_phone_def)

subsection \<open>The whole run over teams that follow the schema\<close>

lemma teams_ok_run:
  assumes "up ''/api/v0/teams'' = Inr resp" and "status_code resp = 200"
    and "body resp = Some (JArr names)"
    and "list_all (\<lambda>t. team_ok up (py_str fmt t)) names"
  shows "\<exists>reg'. teams fmt up reg =
           (None, reg'\<lparr>ONCALL_TEAMS_UNDERSTAFFED :=
                           int (length (filter (\<lambda>t. team_understaffed up (py_str fmt t)) names)),
                         ONCALL_TEAMS_TOTAL_UNREACHABLE_BY_PHONE :=
                           int (length (filter (\<lambda>t. team_unreachable up (py_str fmt t)) names))\<rparr>) \<and>
         ONCALL_TEAM_ROTATION_STAFF_COUNT reg' =
           series_after slot_staff up (py_str fmt ` set names) (ONCALL_TEAM_ROTATION_STAFF_COUNT reg) \<and>
         ONCALL_TEAM_ROTATION_UNREACHABLE_BY_PHONE_COUNT reg' =
           series_after slot_unreachable up (py_str fmt ` set names)
             (ONCALL_TEAM_ROTATION_UNREACHABLE_BY_PHONE_COUNT reg)"
proof -
  let ?r1 = "reg\<lparr>ONCALL_API_REQUESTS_TOTAL := ONCALL_API_REQUESTS_TOTAL reg + 1,
                  ONCALL_TEAMS_TOTAL := int (length names)\<rparr>"
  from teams_loop_ok [OF assms(4), of ?r1 0 0] obtain reg' where
    l: "teams_loop fmt up names (?r1, 0, 0) =
          (None, (reg',
             int (length (filter (\<lambda>t. team_understaffed up (py_str fmt t)) names)),
             int (length (filter (\<lambda>t. team_unreachable up (py_str fmt t)) names))))"
    and s: "ONCALL_TEAM_ROTATION_STAFF_COUNT reg' =
          series_after slot_staff up (py_str fmt ` set names) (ONCALL_TEAM_ROTATION_STAFF_COUNT ?r1)"
    and u: "ONCALL_TEAM_ROTATION_UNREACHABLE_BY_PHONE_COUNT reg' =
          series_after slot_unreachable up (py_str fmt ` set names)
            (ONCALL_TEAM_ROTATION_UNREACHABLE_BY_PHONE_COUNT ?r1)"
    by auto
  have "teams fmt up reg =
      (None, reg'\<lparr>ONCALL_TEAMS_UNDERSTAFFED :=
                      int (length (filter (\<lambda>t. team_understaffed up (py_str fmt t)) names)),
                    ONCALL_TEAMS_TOTAL_UNREACHABLE_BY_PHONE :=
                      int (length (filter (\<lambda>t. team_unreachable up (py_str fmt t)) names))\<rparr>)"
    using assms(1-3) by (simp add: teams_def request_with_counting_eq resp_json_def l)
  with s u show ?thesis by (intro exI [of _ reg']) simp
qed

lemma count_without_name:
  assumes "\<And>x. L x = l \<Longrightarrow> \<not> P x"
  shows "filter P (filter (\<lambda>x. L x \<noteq> l) xs) = filter P xs"
  by (induction xs) (auto simp: assms)

lemma count_with_name:
  assumes "\<And>x. L x = l \<Longrightarrow> P x"
  shows "length (filter P xs) =
           length (filter (\<lambda>x. L x = l) xs) + length (filter P (filter (\<lambda>x. L x \<noteq> l) xs))"
  by (induction xs) (auto simp: assms)

lemma summary_of_200:
  assumes "up (summary_path name) = Inr resp" and "status_code resp = 200" and "body resp = Some d"
  shows "summary_of up name = Some d"
  using assms by (simp add: summary_of_def)

lemma team_ok_200:
  assumes "team_ok up name" and "up (summary_path name) = Inr resp" and "status_code resp = 200"
    and "body resp = Some d"
  shows "is_summary d"
  using assms by (simp add: team_ok_def)

subsection \<open>A team writes the label series of its own name only\<close>

lemma slot_body_frame:
  "(case slot_body fmt t d s (reg, a, b) of
      Inl e \<Rightarrow> True
    | Inr (r, a', b') \<Rightarrow>
        (\<forall>l s'. l \<noteq> py_str fmt t \<longrightarrow>
           ONCALL_TEAM_ROTATION_STAFF_COUNT r (l, s') = ONCALL_TEAM_ROTATION_STAFF_COUNT reg (l, s') \<and>
           ONCALL_TEAM_ROTATION_UNREACHABLE_BY_PHONE_COUNT r (l, s') =
             ONCALL_TEAM_ROTATION_UNREACHABLE_BY_PHONE_COUNT reg (l, s')))"
  by (simp add: slot_body_def split: sum.splits)

lemma slots_loop_frame:
  assumes "l \<noteq> py_str fmt t"
  shows "ONCALL_TEAM_ROTATION_STAFF_COUNT (fst (snd (slots_loop fmt t d slots (reg, a, b)))) (l, s') =
           ONCALL_TEAM_ROTATION_STAFF_COUNT reg (l, s') \<and>
         ONCALL_TEAM_ROTATION_UNREACHABLE_BY_PHONE_COUNT
           (fst (snd (slots_loop fmt t d slots (reg, a, b)))) (l, s') =
           ONCALL_TEAM_ROTATION_UNREACHABLE_BY_PHONE_COUNT reg (l, s')"
proof (induction slots arbitrary: reg a b)
  case Nil
  show ?case by simp
next
  case (Cons s slots)
  show ?case
  proof (cases "slot_body fmt t d s (reg, a, b)")
    case (Inl e)
    then show ?thesis by simp
  next
    case (Inr st)
    obtain reg' a' b' where st: "st = (reg', a', b')" by (cases st)
    with Inr Cons.IH [of reg' a' b'] assms
      slot_body_frame [where fmt = fmt and t = t and d = d and s = s and reg = reg and a = a and b = b]
    show ?thesis by simp
  qed
qed

lemma team_body_frame:
  assumes "up (summary_path l) = Inr resp" and "status_code resp \<noteq> 200"
  shows "ONCALL_TEAM_ROTATION_STAFF_COUNT (fst (snd (team_body fmt up t (reg, us, ur)))) (l, s) =
           ONCALL_TEAM_ROTATION_STAFF_COUNT reg (l, s) \<and>
         ONCALL_TEAM_ROTATION_UNREACHABLE_BY_PHONE_COUNT
           (fst (snd (team_body fmt up t (reg, us, ur)))) (l, s) =
           ONCALL_TEAM_ROTATION_UNREACHABLE_BY_PHONE_COUNT reg (l, s)"
proof (cases "l = py_str fmt t")
  case True
  with assms show ?thesis by (simp add: team_body_not_200)
next
  case False
  obtain x r where q: "request_with_counting up (summary_path (py_str fmt t)) reg = (x, r)"
    by (cases "request_with_counting up (summary_path (py_str fmt t)) reg")
  then have r: "ONCALL_TEAM_ROTATION_STAFF_COUNT r = ONCALL_TEAM_ROTATION_STAFF_COUNT reg"
    "ONCALL_TEAM_ROTATION_UNREACHABLE_BY_PHONE_COUNT r =
     ONCALL_TEAM_ROTATION_UNREACHABLE_BY_PHONE_COUNT reg"
    by (auto simp: request_with_counting_eq)
  show ?thesis
  proof (cases x)
    case (Inl e)
    then show ?thesis by (simp add: team_body_def q r)
  next
    case (Inr resp')
    show ?thesis
    proof (cases "body resp'")
      case None
      with Inr show ?thesis by (simp add: team_body_def q r resp_json_def)
    next
      case (Some d)
      obtain out r' a b where
        x: "slots_loop fmt t d [''current'', ''next''] (r, False, False) = (out, (r', a, b))"
        by (metis prod_cases3)
      from slots_loop_frame [OF False, of d "[''current'', ''next'']" r False False s]
      have "ONCALL_TEAM_ROTATION_STAFF_COUNT r' (l, s) = ONCALL_TEAM_ROTATION_STAFF_COUNT r (l, s)"
        "ONCALL_TEAM_ROTATION_UNREACHABLE_BY_PHONE_COUNT r' (l, s) =
         ONCALL_TEAM_ROTATION_UNREACHABLE_BY_PHONE_COUNT r (l, s)"
        unfolding x by simp_all
      with Inr Some r show ?thesis
        by (cases out) (simp_all add: team_body_def q resp_json_def x del: slots_loop.simps)
    qed
  qed
qed

lemma teams_loop_frame:
  assumes "up (summary_path l) = Inr resp" and "status_code resp \<noteq> 200"
  shows "ONCALL_TEAM_ROTATION_STAFF_COUNT (fst (snd (teams_loop fmt up names (reg, us, ur)))) (l, s) =
           ONCALL_TEAM_ROTATION_STAFF_COUNT reg (l, s) \<and>
         ONCALL_TEAM_ROTATION_UNREACHABLE_BY_PHONE_COUNT
           (fst (snd (teams_loop fmt up names (reg, us, ur)))) (l, s) =
           ONCALL_TEAM_ROTATION_UNREACHABLE_BY_PHONE_COUNT reg (l, s)"
proof (induction names arbitrary: reg us ur)
  case Nil
  show ?case by simp
next
  case (Cons t names)
  obtain out reg' us' ur' where b: "team_body fmt up t (reg, us, ur) = (out, (reg', us', ur'))"
    by (metis prod_cases3)
  from team_body_frame [where up = up and l = l and fmt = fmt and t = t and reg = reg
      and us = us and ur = ur and s = s, OF assms]
  have f: "ONCALL_TEAM_ROTATION_STAFF_COUNT reg' (l, s) = ONCALL_TEAM_ROTATION_STAFF_COUNT reg (l, s)"
    "ONCALL_TEAM_ROTATION_UNREACHABLE_BY_PHONE_COUNT reg' (l, s) =
     ONCALL_TEAM_ROTATION_UNREACHABLE_BY_PHONE_COUNT reg (l, s)"
    unfolding b by simp_all
  show ?case
  proof (cases out)
    case None
    with b f Cons.IH [of reg' us' ur'] show ?thesis by simp
  next
    case (Some e)
    with b f show ?thesis by simp
  qed
qed

lemma teams_frame:
  assumes "up (summary_path l) = Inr resp" and "status_code resp \<noteq> 200"
  shows "ONCALL_TEAM_ROTATION_STAFF_COUNT (snd (teams fmt up reg)) (l, s) =
           ONCALL_TEAM_ROTATION_STAFF_COUNT reg (l, s) \<and>
         ONCALL_TEAM_ROTATION_UNREACHABLE_BY_PHONE_COUNT (snd (teams fmt up reg)) (l, s) =
           ONCALL_TEAM_ROTATION_UNREACHABLE_BY_PHONE_COUNT reg (l, s)"
proof -
  obtain x r where q: "request_with_counting up ''/api/v0/teams'' reg = (x, r)"
    by (cases "request_with_counting up ''/api/v0/teams'' reg")
  then have r: "ONCALL_TEAM_ROTATION_STAFF_COUNT r = ONCALL_TEAM_ROTATION_STAFF_COUNT reg"
    "ONCALL_TEAM_ROTATION_UNREACHABLE_BY_PHONE_COUNT r =
     ONCALL_TEAM_ROTATION_UNREACHABLE_BY_PHONE_COUNT reg"
    by (auto simp: request_with_counting_eq)
  show ?thesis
  proof (cases x)
    case (Inl e)
    then show ?thesis by (simp add: teams_def q r)
  next
    case resp: (Inr resp')
    show ?thesis
    proof (cases "resp_json resp'")
      case (Inl e)
      with resp show ?thesis by (simp add: teams_def q r)
    next
      case v: (Inr v)
      show ?thesis
      proof (cases "py_len v")
        case (Inl e)
        with resp v show ?thesis by (simp add: teams_def q r)
      next
        case n: (Inr n)
        show ?thesis
        proof (cases "py_iter v")
          case (Inl e)
          with resp v n show ?thesis by (simp add: teams_def q r Let_def)
        next
          case names: (Inr names)
          obtain out r2 a b where
            x: "teams_loop fmt up names (r\<lparr>ONCALL_TEAMS_TOTAL := n\<rparr>, 0, 0) = (out, (r2, a, b))"
            by (metis prod_cases3)
          from teams_loop_frame [where up = up and l = l and fmt = fmt and names = names
              and reg = "r\<lparr>ONCALL_TEAMS_TOTAL := n\<rparr>" and us = 0 and ur = 0 and s = s, OF assms]
          have "ONCALL_TEAM_ROTATION_STAFF_COUNT r2 (l, s) = ONCALL_TEAM_ROTATION_STAFF_COUNT r (l, s)"
            "ONCALL_TEAM_ROTATION_UNREACHABLE_BY_PHONE_COUNT r2 (l, s) =
             ONCALL_TEAM_ROTATION_UNREACHABLE_BY_PHONE_COUNT r (l, s)"
            unfolding x by simp_all
          with resp v n names r show ?thesis
            by (cases out) (simp_all add: teams_def q Let_def x)
        qed
      qed
    qed
  qed
qed

subsection \<open>The writes of a run do not depend on the registry\<close>

lemma overlay_assoc: "overlay (overlay reg d1) d2 = overlay reg (overlay d1 d2)"
  by (simp add: overlay_def add.assoc)

lemma map_add_twice: "(m ++ s) ++ s = m ++ s"
  by (simp add: map_add_def fun_eq_iff split: option.splits)

lemma slot_body_delta:
  "slot_body fmt t d s (reg, a, b) =
     (case slot_body fmt t d s (fresh_registry, a, b) of
        Inl e \<Rightarrow> Inl e
      | Inr (r0, a', b') \<Rightarrow> Inr (overlay reg r0, a', b'))"
  by (simp add: slot_body_def overlay_def fresh_registry_def split: sum.splits)

lemma slots_loop_delta:
  "slots_loop fmt t d slots (reg, a, b) =
     (case slots_loop fmt t d slots (fresh_registry, a, b) of
        (out, (r0, a', b')) \<Rightarrow> (out, (overlay reg r0, a', b')))"
proof (induction slots arbitrary: reg a b)
  case Nil
  show ?case by (simp add: overlay_def fresh_registry_def)
next
  case (Cons s slots)
  show ?case
  proof (cases "slot_body fmt t d s (fresh_registry, a, b)")
    case (Inl e)
    then show ?thesis
      by (simp add: slot_body_delta [of fmt t d s reg] overlay_def fresh_registry_def)
  next
    case (Inr st)
    obtain r0 a' b' where st: "st = (r0, a', b')" by (cases st)
    obtain out r1 a1 b1 where l: "slots_loop fmt t d slots (fresh_registry, a', b') = (out, (r1, a1, b1))"
      by (metis prod_cases3)
    show ?thesis
      using Inr st l
      by (simp add: slot_body_delta [of fmt t d s reg] Cons.IH [of r0] Cons.IH [of "overlay reg r0"]
          overlay_assoc)
  qed
qed

lemma team_body_delta:
  "team_body fmt up t (reg, us, ur) =
     (case team_body fmt up t (fresh_registry, 0, 0) of
        (out, (r0, a, b)) \<Rightarrow> (out, (overlay reg r0, us + a, ur + b)))"
proof -
  obtain x f1 where q: "request_with_counting up (summary_path (py_str fmt t)) fresh_registry = (x, f1)"
    by (cases "request_with_counting up (summary_path (py_str fmt t)) fresh_registry")
  have q': "request_with_counting up (summary_path (py_str fmt t)) reg = (x, overlay reg f1)"
    unfolding request_with_counting_delta [of up _ reg] q by simp
  show ?thesis
  proof (cases x)
    case (Inl e)
    then show ?thesis by (simp add: team_body_def q q')
  next
    case (Inr resp)
    show ?thesis
    proof (cases "body resp")
      case None
      with Inr show ?thesis by (simp add: team_body_def q q' resp_json_def)
    next
      case (Some d)
      obtain out r0 a b where
        x: "slots_loop fmt t d [''current'', ''next''] (fresh_registry, False, False) = (out, (r0, a, b))"
        by (metis prod_cases3)
      have l1: "slots_loop fmt t d [''current'', ''next''] (overlay reg f1, False, False) =
                  (out, (overlay (overlay reg f1) r0, a, b))"
        unfolding slots_loop_delta [of fmt t d _ "overlay reg f1"] x by simp
      have l2: "slots_loop fmt t d [''current'', ''next''] (f1, False, False) =
                  (out, (overlay f1 r0, a, b))"
        unfolding slots_loop_delta [of fmt t d _ f1] x by simp
      show ?thesis
        using Inr Some
        by (cases out)
          (simp_all add: team_body_def q q' resp_json_def l1 l2 overlay_assoc
            del: slots_loop.simps)
    qed
  qed
qed

lemma teams_loop_delta:
  "teams_loop fmt up names (reg, us, ur) =
     (case teams_loop fmt up names (fresh_registry, 0, 0) of
        (out, (r0, a, b)) \<Rightarrow> (out, (overlay reg r0, us + a, ur + b)))"
proof (induction names arbitrary: reg us ur)
  case Nil
  show ?case by (simp add: overlay_def fresh_registry_def)
next
  case (Cons t names)
  obtain out r0 a b where x: "team_body fmt up t (fresh_registry, 0, 0) = (out, (r0, a, b))"
    by (metis prod_cases3)
  obtain out' r1 a1 b1 where y: "teams_loop fmt up names (fresh_registry, 0, 0) = (out', (r1, a1, b1))"
    by (metis prod_cases3)
  have b1: "team_body fmt up t (reg, us, ur) = (out, (overlay reg r0, us + a, ur + b))"
    unfolding team_body_delta [of fmt up t reg] x by simp
  show ?case
    by (cases out)
      (simp_all add: b1 x y Cons.IH [of "overlay reg r0"] Cons.IH [of r0] overlay_assoc add.assoc)
qed

lemma health_twice:
  "gauges (snd (health up (snd (health up reg)))) = gauges (snd (health up reg)) \<and>
   fst (health up (snd (health up reg))) = fst (health up reg)"
  by (simp add: health_def request_with_counting_eq gauges_def split: sum.splits)

lemma users_twice:
  "gauges (snd (number_of_users_without_contacts up (snd (number_of_users_without_contacts up reg)))) =
     gauges (snd (number_of_users_without_contacts up reg)) \<and>
   fst (number_of_users_without_contacts up (snd (number_of_users_without_contacts up reg))) =
     fst (number_of_users_without_contacts up reg)"
  by (simp add: number_of_users_without_contacts_def request_with_counting_eq gauges_def Let_def
      split: sum.splits prod.splits)

lemma teams_twice:
  "gauges (snd (teams fmt up (snd (teams fmt up reg)))) = gauges (snd (teams fmt up reg)) \<and>
   fst (teams fmt up (snd (teams fmt up reg))) = fst (teams fmt up reg)"
proof (cases "up ''/api/v0/teams''")
  case (Inl e)
  then show ?thesis by (simp add: teams_def request_with_counting_eq gauges_def)
next
  case (Inr resp)
  show ?thesis
  proof (cases "py_iter (case body resp of None \<Rightarrow> JNull | Some v \<Rightarrow> v)")
    case (Inl e)
    with Inr show ?thesis
      by (simp add: teams_def request_with_counting_eq gauges_def resp_json_def Let_def
          split: sum.splits option.splits)
  next
    case names: (Inr names)
    obtain out r0 a b where x: "teams_loop fmt up names (fresh_registry, 0, 0) = (out, (r0, a, b))"
      by (metis prod_cases3)
    have l: "teams_loop fmt up names (r, 0, 0) = (out, (overlay r r0, a, b))" for r
      unfolding teams_loop_delta [of fmt up names r] x by simp
    show ?thesis
      using Inr names
      by (cases out)
        (simp_all add: teams_def request_with_counting_eq gauges_def resp_json_def Let_def l
          overlay_def map_add_twice split: sum.splits option.splits)
  qed
qed

section \<open>The API client\<close>

text \<open>
  C7. Every call of \<open>request_with_counting\<close> hands on what the request did (the
  exception or the response), adds exactly one to \<open>oncall_api_requests_total\<close> whatever
  the outcome, a transport error included, and adds to
  \<open>oncall_api_requests_failed_total\<close> exactly one when a response arrived whose status
  is not the success status 200, and nothing otherwise.
\<close>

theorem request_with_counting_counters:
  "fst (request_with_counting up path reg) = up path \<and>
   ONCALL_API_REQUESTS_TOTAL (snd (request_with_counting up path reg)) =
     ONCALL_API_REQUESTS_TOTAL reg + 1 \<and>
   ONCALL_API_REQUESTS_FAILED_TOTAL (snd (request_with_counting up path reg)) =
     ONCALL_API_REQUESTS_FAILED_TOTAL reg +
       (case up path of
          Inl e \<Rightarrow> 0
        | Inr resp \<Rightarrow> if status_code resp \<noteq> 200 then 1 else 0)"
  by (simp add: request_with_counting_def Let_def split: sum.split)

section \<open>The health updater\<close>

text \<open>
  C2, as the specification states it, fails: 204 is a 2xx status, and on a 204 response
  to the probe of the root path \<open>health\<close> sets \<open>oncall_health_status\<close> to 0.
\<close>

theorem health_2xx_counterexample:
  "is_2xx 204 \<and>
   no_content_upstream ''/'' = Inr \<lparr>status_code = 204, body = None\<rparr> \<and>
   ONCALL_HEALTH_STATUS (snd (health no_content_upstream fresh_registry)) = 0"
  by (simp add: is_2xx_def no_content_upstream_def fresh_registry_def health_def
      request_with_counting_def Let_def)

text \<open>
  C2, amended. For every response to the probe of the root path, \<open>health\<close> returns
  without raising and sets \<open>oncall_health_status\<close> to 1 when the status code is exactly
  200, and to 0 for every other status code.
\<close>

theorem health_status_200:
  assumes "up ''/'' = Inr resp"
  shows "fst (health up reg) = None \<and>
         ONCALL_HEALTH_STATUS (snd (health up reg)) = (if status_code resp = 200 then 1 else 0)"
  using assms by (simp add: health_def request_with_counting_def Let_def)

theorem health_status_200_witness:
  "unavailable_upstream ''/'' = Inr \<lparr>status_code = 503, body = None\<rparr> \<and>
   fst (health unavailable_upstream stale_registry) = None \<and>
   ONCALL_HEALTH_STATUS stale_registry = 1 \<and>
   ONCALL_HEALTH_STATUS (snd (health unavailable_upstream stale_registry)) = 0"
  using health_status_200 [of unavailable_upstream "\<lparr>status_code = 503, body = None\<rparr>" stale_registry]
  by (simp add: unavailable_upstream_def stale_registry_def)

section \<open>The user updater\<close>

text \<open>
  C4. When the fetch of \<^verbatim>\<open>/api/v0/users\<close> returns a response whose status is not 200,
  \<open>number_of_users_without_contacts\<close> returns without raising and
  \<open>oncall_users_total\<close>, \<open>oncall_users_without_contacts_gauge\<close> and
  \<open>oncall_users_without_phone\<close> keep the values they had.
\<close>

theorem users_not_200_keeps_gauges:
  assumes "up ''/api/v0/users'' = Inr resp" and "status_code resp \<noteq> 200"
  shows "fst (number_of_users_without_contacts up reg) = None \<and>
         ONCALL_USERS_TOTAL (snd (number_of_users_without_contacts up reg)) =
           ONCALL_USERS_TOTAL reg \<and>
         ONCALL_USERS_WITHOUT_CONTACTS_GAUGE (snd (number_of_users_without_contacts up reg)) =
           ONCALL_USERS_WITHOUT_CONTACTS_GAUGE reg \<and>
         ONCALL_USERS_WITHOUT_PHONE_NUMBER (snd (number_of_users_without_contacts up reg)) =
           ONCALL_USERS_WITHOUT_PHONE_NUMBER reg"
  using assms
  by (simp add: number_of_users_without_contacts_def request_with_counting_def Let_def)

theorem users_not_200_keeps_gauges_witness:
  "unavailable_upstream ''/api/v0/users'' = Inr \<lparr>status_code = 503, body = None\<rparr> \<and>
   fst (number_of_users_without_contacts unavailable_upstream stale_registry) = None \<and>
   ONCALL_USERS_TOTAL (snd (number_of_users_without_contacts unavailable_upstream stale_registry)) = 7 \<and>
   ONCALL_USERS_WITHOUT_CONTACTS_GAUGE
     (snd (number_of_users_without_contacts unavailable_upstream stale_registry)) = 2 \<and>
   ONCALL_USERS_WITHOUT_PHONE_NUMBER
     (snd (number_of_users_without_contacts unavailable_upstream stale_registry)) = 4"
  using users_not_200_keeps_gauges
    [of unavailable_upstream "\<lparr>status_code = 503, body = None\<rparr>" stale_registry]
  by (simp add: unavailable_upstream_def stale_registry_def)

text \<open>
  C3. When \<^verbatim>\<open>/api/v0/users\<close> returns status 200 and a list of users,
  \<open>number_of_users_without_contacts\<close> returns without raising and sets
  \<open>oncall_users_total\<close> to the length of the list, \<open>oncall_users_without_contacts_gauge\<close>
  to the number of users whose contacts mapping is empty, and
  \<open>oncall_users_without_phone\<close> to the number of users whose contacts mapping has neither
  the key \<^verbatim>\<open>call\<close> nor the key \<^verbatim>\<open>sms\<close>. The two counts are taken independently of each
  other: in the sample list the user with contacts \<^verbatim>\<open>{}\<close> is counted in both and the
  user with contacts \<^verbatim>\<open>{"email": "x"}\<close> in the second only.
\<close>

theorem users_gauges:
  assumes "up ''/api/v0/users'' = Inr resp"
    and "status_code resp = 200"
    and "body resp = Some (JArr users)"
    and "list_all is_user users"
  shows "fst (number_of_users_without_contacts up reg) = None \<and>
         ONCALL_USERS_TOTAL (snd (number_of_users_without_contacts up reg)) = int (length users) \<and>
         ONCALL_USERS_WITHOUT_CONTACTS_GAUGE (snd (number_of_users_without_contacts up reg)) =
           int (length (filter (\<lambda>u. contacts_of u = JObj []) users)) \<and>
         ONCALL_USERS_WITHOUT_PHONE_NUMBER (snd (number_of_users_without_contacts up reg)) =
           int (length (filter (\<lambda>u. \<not> has_phone (contacts_of u)) users))"
  using assms
  by (simp add: number_of_users_without_contacts_def request_with_counting_def Let_def
      resp_json_def users_loop_is_user)

theorem users_gauges_witness:
  "users_upstream ''/api/v0/users'' = Inr \<lparr>status_code = 200, body = Some (JArr sample_users)\<rparr> \<and>
   list_all is_user sample_users \<and>
   fst (number_of_users_without_contacts users_upstream fresh_registry) = None \<and>
   ONCALL_USERS_TOTAL (snd (number_of_users_without_contacts users_upstream fresh_registry)) = 3 \<and>
   ONCALL_USERS_WITHOUT_CONTACTS_GAUGE (snd (number_of_users_without_contacts users_upstream fresh_registry)) = 1 \<and>
   ONCALL_USERS_WITHOUT_PHONE_NUMBER (snd (number_of_users_without_contacts users_upstream fresh_registry)) = 2"
  using users_gauges [of users_upstream "\<lparr>status_code = 200, body = Some (JArr sample_users)\<rparr>"
      sample_users fresh_registry] sample_users_ok
  by (simp add: users_upstream_def)
    (simp add: sample_users_def contacts_of_def field_def has_phone_def keys_def)

section \<open>The team updater\<close>

text \<open>
  C1. Let the team list fetch succeed with a list of names, and let every summary fetch
  return a response that is either not a 200 (the team is skipped) or a 200 whose
  summary follows the schema. Then \<open>teams\<close> returns without raising, and for every team
  whose summary fetch succeeded and every slot of \<^verbatim>\<open>current\<close>, \<^verbatim>\<open>next\<close> whose event is present
  and non-empty, the staff-count series of the team and slot holds the length of
  \<^verbatim>\<open>primary + secondary\<close> and the unreachable-count series the number of those members
  whose \<^verbatim>\<open>user_contacts\<close> has neither the key \<^verbatim>\<open>call\<close> nor the key \<^verbatim>\<open>sms\<close>. The gauge
  \<open>oncall_teams_understaffed\<close> holds the number of entries of the team list with such a
  slot of fewer than two members, and \<open>oncall_teams_total_unreachable_by_phone\<close> the
  number of entries with such a slot whose members without phone are all its members.
\<close>

theorem teams_gauges:
  assumes "up ''/api/v0/teams'' = Inr resp" and "status_code resp = 200"
    and "body resp = Some (JArr names)"
    and "list_all (\<lambda>t. team_ok up (py_str fmt t)) names"
  shows "fst (teams fmt up reg) = None \<and>
         (\<forall>t\<in>set names. \<forall>slot\<in>{''current'', ''next''}. \<forall>ev.
            slot_event up (py_str fmt t) slot = Some ev \<longrightarrow>
              ONCALL_TEAM_ROTATION_STAFF_COUNT (snd (teams fmt up reg)) (py_str fmt t, slot) =
                Some (int (length (event_members ev))) \<and>
              ONCALL_TEAM_ROTATION_UNREACHABLE_BY_PHONE_COUNT (snd (teams fmt up reg))
                (py_str fmt t, slot) =
                Some (int (length (filter lacks_phone (event_members ev))))) \<and>
         ONCALL_TEAMS_UNDERSTAFFED (snd (teams fmt up reg)) =
           int (length (filter
             (\<lambda>t. \<exists>slot\<in>{''current'', ''next''}. \<exists>ev.
                slot_event up (py_str fmt t) slot = Some ev \<and> length (event_members ev) < 2)
             names)) \<and>
         ONCALL_TEAMS_TOTAL_UNREACHABLE_BY_PHONE (snd (teams fmt up reg)) =
           int (length (filter
             (\<lambda>t. \<exists>slot\<in>{''current'', ''next''}. \<exists>ev.
                slot_event up (py_str fmt t) slot = Some ev \<and>
                filter lacks_phone (event_members ev) = event_members ev)
             names))"
proof -
  let ?r1 = "reg\<lparr>ONCALL_API_REQUESTS_TOTAL := ONCALL_API_REQUESTS_TOTAL reg + 1,
                  ONCALL_TEAMS_TOTAL := int (length names)\<rparr>"
  from teams_loop_ok [OF assms(4), of ?r1 0 0] obtain reg' where
    l: "teams_loop fmt up names (?r1, 0, 0) =
          (None, (reg',
             int (length (filter (\<lambda>t. team_understaffed up (py_str fmt t)) names)),
             int (length (filter (\<lambda>t. team_unreachable up (py_str fmt t)) names))))"
    and s: "ONCALL_TEAM_ROTATION_STAFF_COUNT reg' =
          series_after slot_staff up (py_str fmt ` set names) (ONCALL_TEAM_ROTATION_STAFF_COUNT ?r1)"
    and u: "ONCALL_TEAM_ROTATION_UNREACHABLE_BY_PHONE_COUNT reg' =
          series_after slot_unreachable up (py_str fmt ` set names)
            (ONCALL_TEAM_ROTATION_UNREACHABLE_BY_PHONE_COUNT ?r1)"
    by auto
  have t: "teams fmt up reg =
      (None, reg'\<lparr>ONCALL_TEAMS_UNDERSTAFFED :=
                      int (length (filter (\<lambda>t. team_understaffed up (py_str fmt t)) names)),
                    ONCALL_TEAMS_TOTAL_UNREACHABLE_BY_PHONE :=
                      int (length (filter (\<lambda>t. team_unreachable up (py_str fmt t)) names))\<rparr>)"
    using assms(1-3) by (simp add: teams_def request_with_counting_eq resp_json_def l)
  have "ONCALL_TEAM_ROTATION_STAFF_COUNT (snd (teams fmt up reg)) (py_str fmt t, slot) =
          Some (int (length (event_members ev))) \<and>
        ONCALL_TEAM_ROTATION_UNREACHABLE_BY_PHONE_COUNT (snd (teams fmt up reg))
          (py_str fmt t, slot) = Some (int (length (filter lacks_phone (event_members ev))))"
    if "t \<in> set names" and "slot \<in> {''current'', ''next''}"
      and "slot_event up (py_str fmt t) slot = Some ev" for t slot ev
  proof -
    from that(1) have m: "py_str fmt t \<in> py_str fmt ` set names" by simp
    from that(2) have c: "slot = ''current'' \<or> slot = ''next''" by simp
    show ?thesis
      by (simp add: t s u series_after_slot_event [OF m c that(3)])
  qed
  then show ?thesis
    by (simp add: t team_understaffed_iff team_unreachable_iff)
qed

theorem teams_gauges_witness:
  "teams_upstream ''/api/v0/teams'' = Inr \<lparr>status_code = 200, body = Some (JArr sample_teams)\<rparr> \<and>
   list_all (\<lambda>t. team_ok teams_upstream (py_str sample_fmt t)) sample_teams \<and>
   fst (teams sample_fmt teams_upstream fresh_registry) = None \<and>
   ONCALL_TEAM_ROTATION_STAFF_COUNT (snd (teams sample_fmt teams_upstream fresh_registry))
     (''a'', ''current'') = Some 3 \<and>
   ONCALL_TEAM_ROTATION_UNREACHABLE_BY_PHONE_COUNT
     (snd (teams sample_fmt teams_upstream fresh_registry)) (''a'', ''current'') = Some 0 \<and>
   ONCALL_TEAM_ROTATION_STAFF_COUNT (snd (teams sample_fmt teams_upstream fresh_registry))
     (''c'', ''current'') = Some 1 \<and>
   ONCALL_TEAM_ROTATION_UNREACHABLE_BY_PHONE_COUNT
     (snd (teams sample_fmt teams_upstream fresh_registry)) (''c'', ''current'') = Some 0 \<and>
   ONCALL_TEAM_ROTATION_STAFF_COUNT (snd (teams sample_fmt teams_upstream fresh_registry))
     (''c'', ''next'') = Some 2 \<and>
   ONCALL_TEAM_ROTATION_UNREACHABLE_BY_PHONE_COUNT
     (snd (teams sample_fmt teams_upstream fresh_registry)) (''c'', ''next'') = Some 2 \<and>
   ONCALL_TEAMS_UNDERSTAFFED (snd (teams sample_fmt teams_upstream fresh_registry)) = 2 \<and>
   ONCALL_TEAMS_TOTAL_UNREACHABLE_BY_PHONE (snd (teams sample_fmt teams_upstream fresh_registry)) = 2"
proof -
  have f: "teams_upstream ''/api/v0/teams'' =
      Inr \<lparr>status_code = 200, body = Some (JArr sample_teams)\<rparr>"
    by (simp add: teams_upstream_def)
  from teams_gauges [where up = teams_upstream and fmt = sample_fmt and names = sample_teams
      and reg = fresh_registry, OF f _ _ sample_teams_ok] f sample_teams_ok
  show ?thesis
    by (simp add: sample_teams_def py_str_def sample_slot_events sample_members)
qed

text \<open>
  C5. When the summary fetch of a team returns a response whose status is not 200, the
  iteration for that team returns without raising and changes nothing but the two
  request counters: it writes no label series and leaves the rollup counters
  \<open>understaffed\<close> and \<open>unreachable\<close> as they were, and the loop goes on with the remaining
  teams. Over the whole run of \<open>teams\<close>, whatever the other teams do, the staff-count and
  the unreachable-count series of that team's name keep the values they had, for every
  slot.
\<close>

theorem failed_summary_skips_team:
  assumes "up (summary_path (py_str fmt t)) = Inr resp" and "status_code resp \<noteq> 200"
  shows "team_body fmt up t (reg, understaffed, unreachable) =
           (None,
            (reg\<lparr>ONCALL_API_REQUESTS_TOTAL := ONCALL_API_REQUESTS_TOTAL reg + 1,
                 ONCALL_API_REQUESTS_FAILED_TOTAL := ONCALL_API_REQUESTS_FAILED_TOTAL reg + 1\<rparr>,
             understaffed, unreachable)) \<and>
         teams_loop fmt up (t # rest) (reg, understaffed, unreachable) =
           teams_loop fmt up rest
            (reg\<lparr>ONCALL_API_REQUESTS_TOTAL := ONCALL_API_REQUESTS_TOTAL reg + 1,
                 ONCALL_API_REQUESTS_FAILED_TOTAL := ONCALL_API_REQUESTS_FAILED_TOTAL reg + 1\<rparr>,
             understaffed, unreachable) \<and>
         (\<forall>slot.
            ONCALL_TEAM_ROTATION_STAFF_COUNT (snd (teams fmt up reg)) (py_str fmt t, slot) =
              ONCALL_TEAM_ROTATION_STAFF_COUNT reg (py_str fmt t, slot) \<and>
            ONCALL_TEAM_ROTATION_UNREACHABLE_BY_PHONE_COUNT (snd (teams fmt up reg))
              (py_str fmt t, slot) =
              ONCALL_TEAM_ROTATION_UNREACHABLE_BY_PHONE_COUNT reg (py_str fmt t, slot))"
  using team_body_not_200 [where up = up and fmt = fmt and t = t and reg = reg
      and us = understaffed and ur = unreachable, OF assms]
    teams_frame [where up = up and l = "py_str fmt t" and fmt = fmt and reg = reg, OF assms]
  by simp

theorem failed_summary_skips_team_witness:
  "teams_upstream (summary_path (py_str sample_fmt (JStr ''b''))) =
     Inr \<lparr>status_code = 503, body = None\<rparr> \<and>
   teams_loop sample_fmt teams_upstream [JStr ''b'', JStr ''e''] (stale_registry, 0, 0) =
     teams_loop sample_fmt teams_upstream [JStr ''e'']
       (stale_registry\<lparr>ONCALL_API_REQUESTS_TOTAL := 41, ONCALL_API_REQUESTS_FAILED_TOTAL := 4\<rparr>,
        0, 0) \<and>
   ONCALL_TEAM_ROTATION_STAFF_COUNT (snd (teams sample_fmt teams_upstream stale_registry))
     (''b'', ''current'') = Some 6 \<and>
   ONCALL_TEAM_ROTATION_UNREACHABLE_BY_PHONE_COUNT
     (snd (teams sample_fmt teams_upstream stale_registry)) (''b'', ''current'') = Some 1 \<and>
   ONCALL_TEAM_ROTATION_STAFF_COUNT (snd (teams sample_fmt teams_upstream stale_registry))
     (''b'', ''next'') = None"
proof -
  have f: "teams_upstream (summary_path (py_str sample_fmt (JStr ''b''))) =
      Inr \<lparr>status_code = 503, body = None\<rparr>"
    by (simp add: teams_upstream_def summary_path_def py_str_def)
  from failed_summary_skips_team [where up = teams_upstream and fmt = sample_fmt
      and t = "JStr ''b''" and reg = stale_registry and understaffed = 0 and unreachable = 0
      and rest = "[JStr ''e'']", OF f] f
  show ?thesis by (simp add: py_str_def stale_registry_def)
qed

text \<open>
  C6. Let the team list fetch succeed and every summary fetch return a response that is
  either not a 200 or a 200 whose summary follows the schema. For a team of the list
  whose summary has \<^verbatim>\<open>current = null\<close> and \<^verbatim>\<open>next = null\<close>, \<open>teams\<close> returns without raising
  and leaves the staff-count and the unreachable-count series of both slots of that
  team at 0, and the team adds nothing to the rollups: \<open>oncall_teams_understaffed\<close> and
  \<open>oncall_teams_total_unreachable_by_phone\<close> hold the number of flagged entries among
  the entries of the list with another name. In the loop, the iteration for such a
  team writes the four zeros and hands both rollup counters on as they were.
\<close>

theorem team_with_null_slots:
  assumes "up ''/api/v0/teams'' = Inr resp" and "status_code resp = 200"
    and "body resp = Some (JArr names)"
    and "list_all (\<lambda>t. team_ok up (py_str fmt t)) names"
    and "t \<in> set names"
    and "up (summary_path (py_str fmt t)) = Inr resp_t" and "status_code resp_t = 200"
    and "body resp_t = Some d"
    and "field d ''current'' = Some JNull" and "field d ''next'' = Some JNull"
  shows "fst (teams fmt up reg) = None \<and>
         ONCALL_TEAM_ROTATION_STAFF_COUNT (snd (teams fmt up reg)) (py_str fmt t, ''current'') =
           Some 0 \<and>
         ONCALL_TEAM_ROTATION_STAFF_COUNT (snd (teams fmt up reg)) (py_str fmt t, ''next'') =
           Some 0 \<and>
         ONCALL_TEAM_ROTATION_UNREACHABLE_BY_PHONE_COUNT (snd (teams fmt up reg))
           (py_str fmt t, ''current'') = Some 0 \<and>
         ONCALL_TEAM_ROTATION_UNREACHABLE_BY_PHONE_COUNT (snd (teams fmt up reg))
           (py_str fmt t, ''next'') = Some 0 \<and>
         ONCALL_TEAMS_UNDERSTAFFED (snd (teams fmt up reg)) =
           int (length (filter
             (\<lambda>t'. \<exists>slot\<in>{''current'', ''next''}. \<exists>ev.
                slot_event up (py_str fmt t') slot = Some ev \<and> length (event_members ev) < 2)
             (filter (\<lambda>t'. py_str fmt t' \<noteq> py_str fmt t) names))) \<and>
         ONCALL_TEAMS_TOTAL_UNREACHABLE_BY_PHONE (snd (teams fmt up reg)) =
           int (length (filter
             (\<lambda>t'. \<exists>slot\<in>{''current'', ''next''}. \<exists>ev.
                slot_event up (py_str fmt t') slot = Some ev \<and>
                filter lacks_phone (event_members ev) = event_members ev)
             (filter (\<lambda>t'. py_str fmt t' \<noteq> py_str fmt t) names))) \<and>
         team_body fmt up t (r, understaffed, unreachable) =
           (None,
            (r\<lparr>ONCALL_API_REQUESTS_TOTAL := ONCALL_API_REQUESTS_TOTAL r + 1,
                 ONCALL_TEAM_ROTATION_STAFF_COUNT :=
                   (ONCALL_TEAM_ROTATION_STAFF_COUNT r)
                     ((py_str fmt t, ''current'') \<mapsto> 0, (py_str fmt t, ''next'') \<mapsto> 0),
                 ONCALL_TEAM_ROTATION_UNREACHABLE_BY_PHONE_COUNT :=
                   (ONCALL_TEAM_ROTATION_UNREACHABLE_BY_PHONE_COUNT r)
                     ((py_str fmt t, ''current'') \<mapsto> 0, (py_str fmt t, ''next'') \<mapsto> 0)\<rparr>,
             understaffed, unreachable)) \<and>
         teams_loop fmt up (t # rest) (r, understaffed, unreachable) =
           teams_loop fmt up rest
            (r\<lparr>ONCALL_API_REQUESTS_TOTAL := ONCALL_API_REQUESTS_TOTAL r + 1,
                 ONCALL_TEAM_ROTATION_STAFF_COUNT :=
                   (ONCALL_TEAM_ROTATION_STAFF_COUNT r)
                     ((py_str fmt t, ''current'') \<mapsto> 0, (py_str fmt t, ''next'') \<mapsto> 0),
                 ONCALL_TEAM_ROTATION_UNREACHABLE_BY_PHONE_COUNT :=
                   (ONCALL_TEAM_ROTATION_UNREACHABLE_BY_PHONE_COUNT r)
                     ((py_str fmt t, ''current'') \<mapsto> 0, (py_str fmt t, ''next'') \<mapsto> 0)\<rparr>,
             understaffed, unreachable)"
proof -
  note z = null_slots_summary [OF assms(9,10)]
  have so: "summary_of up (py_str fmt t) = Some d"
    using assms(6-8) by (rule summary_of_200)
  have m: "py_str fmt t \<in> py_str fmt ` set names" using assms(5) by simp
  from teams_ok_run [where up = up and fmt = fmt and reg = reg, OF assms(1-4)] obtain reg' where
    run: "teams fmt up reg =
           (None, reg'\<lparr>ONCALL_TEAMS_UNDERSTAFFED :=
                           int (length (filter (\<lambda>t. team_understaffed up (py_str fmt t)) names)),
                         ONCALL_TEAMS_TOTAL_UNREACHABLE_BY_PHONE :=
                           int (length (filter (\<lambda>t. team_unreachable up (py_str fmt t)) names))\<rparr>)"
    and s: "ONCALL_TEAM_ROTATION_STAFF_COUNT reg' =
           series_after slot_staff up (py_str fmt ` set names) (ONCALL_TEAM_ROTATION_STAFF_COUNT reg)"
    and u: "ONCALL_TEAM_ROTATION_UNREACHABLE_BY_PHONE_COUNT reg' =
           series_after slot_unreachable up (py_str fmt ` set names)
             (ONCALL_TEAM_ROTATION_UNREACHABLE_BY_PHONE_COUNT reg)"
    by blast
  have series: "ONCALL_TEAM_ROTATION_STAFF_COUNT reg' (py_str fmt t, ''current'') = Some 0"
    "ONCALL_TEAM_ROTATION_STAFF_COUNT reg' (py_str fmt t, ''next'') = Some 0"
    "ONCALL_TEAM_ROTATION_UNREACHABLE_BY_PHONE_COUNT reg' (py_str fmt t, ''current'') = Some 0"
    "ONCALL_TEAM_ROTATION_UNREACHABLE_BY_PHONE_COUNT reg' (py_str fmt t, ''next'') = Some 0"
    using m by (simp_all add: s u series_after_def so z)
  have nu: "\<not> team_understaffed up (py_str fmt t')" if "py_str fmt t' = py_str fmt t" for t'
    using that by (simp add: team_understaffed_def so z)
  have nr: "\<not> team_unreachable up (py_str fmt t')" if "py_str fmt t' = py_str fmt t" for t'
    using that by (simp add: team_unreachable_def so z)
  have cu: "filter (\<lambda>t. team_understaffed up (py_str fmt t)) names =
        filter (\<lambda>t. team_understaffed up (py_str fmt t))
          (filter (\<lambda>t'. py_str fmt t' \<noteq> py_str fmt t) names)"
    using count_without_name [where L = "py_str fmt" and l = "py_str fmt t"
        and P = "\<lambda>t. team_understaffed up (py_str fmt t)" and xs = names, OF nu]
    by simp
  have cr: "filter (\<lambda>t. team_unreachable up (py_str fmt t)) names =
        filter (\<lambda>t. team_unreachable up (py_str fmt t))
          (filter (\<lambda>t'. py_str fmt t' \<noteq> py_str fmt t) names)"
    using count_without_name [where L = "py_str fmt" and l = "py_str fmt t"
        and P = "\<lambda>t. team_unreachable up (py_str fmt t)" and xs = names, OF nr]
    by simp
  have gu: "ONCALL_TEAMS_UNDERSTAFFED (snd (teams fmt up reg)) =
      int (length (filter (\<lambda>t. team_understaffed up (py_str fmt t))
          (filter (\<lambda>t'. py_str fmt t' \<noteq> py_str fmt t) names)))"
    unfolding run using cu by simp
  have gr: "ONCALL_TEAMS_TOTAL_UNREACHABLE_BY_PHONE (snd (teams fmt up reg)) =
      int (length (filter (\<lambda>t. team_unreachable up (py_str fmt t))
          (filter (\<lambda>t'. py_str fmt t' \<noteq> py_str fmt t) names)))"
    unfolding run using cr by simp
  have step: "team_body fmt up t (r, understaffed, unreachable) =
           (None,
            (r\<lparr>ONCALL_API_REQUESTS_TOTAL := ONCALL_API_REQUESTS_TOTAL r + 1,
                 ONCALL_TEAM_ROTATION_STAFF_COUNT :=
                   (ONCALL_TEAM_ROTATION_STAFF_COUNT r)
                     ((py_str fmt t, ''current'') \<mapsto> 0, (py_str fmt t, ''next'') \<mapsto> 0),
                 ONCALL_TEAM_ROTATION_UNREACHABLE_BY_PHONE_COUNT :=
                   (ONCALL_TEAM_ROTATION_UNREACHABLE_BY_PHONE_COUNT r)
                     ((py_str fmt t, ''current'') \<mapsto> 0, (py_str fmt t, ''next'') \<mapsto> 0)\<rparr>,
             understaffed, unreachable))"
    using team_body_summary [where up = up and fmt = fmt and t = t and reg = r
        and us = understaffed and ur = unreachable, OF assms(6-8) z(1)]
    by (simp add: z)
  show ?thesis
    using series gu gr step
    by (simp add: run team_understaffed_iff team_unreachable_iff)
qed


theorem team_with_null_slots_witness:
  "teams_upstream ''/api/v0/teams'' = Inr \<lparr>status_code = 200, body = Some (JArr sample_teams)\<rparr> \<and>
   list_all (\<lambda>t. team_ok teams_upstream (py_str sample_fmt t)) sample_teams \<and>
   JStr ''e'' \<in> set sample_teams \<and>
   teams_upstream (summary_path (py_str sample_fmt (JStr ''e''))) =
     Inr \<lparr>status_code = 200, body = Some summary_e\<rparr> \<and>
   field summary_e ''current'' = Some JNull \<and> field summary_e ''next'' = Some JNull \<and>
   fst (teams sample_fmt teams_upstream stale_registry) = None \<and>
   ONCALL_TEAM_ROTATION_STAFF_COUNT (snd (teams sample_fmt teams_upstream stale_registry))
     (''e'', ''current'') = Some 0 \<and>
   ONCALL_TEAM_ROTATION_STAFF_COUNT (snd (teams sample_fmt teams_upstream stale_registry))
     (''e'', ''next'') = Some 0 \<and>
   ONCALL_TEAM_ROTATION_UNREACHABLE_BY_PHONE_COUNT
     (snd (teams sample_fmt teams_upstream stale_registry)) (''e'', ''current'') = Some 0 \<and>
   ONCALL_TEAM_ROTATION_UNREACHABLE_BY_PHONE_COUNT
     (snd (teams sample_fmt teams_upstream stale_registry)) (''e'', ''next'') = Some 0 \<and>
   ONCALL_TEAMS_UNDERSTAFFED (snd (teams sample_fmt teams_upstream stale_registry)) = 2 \<and>
   ONCALL_TEAMS_TOTAL_UNREACHABLE_BY_PHONE (snd (teams sample_fmt teams_upstream stale_registry)) = 2 \<and>
   teams_loop sample_fmt teams_upstream [JStr ''e''] (stale_registry, 1, 1) =
     (None,
      (stale_registry\<lparr>ONCALL_API_REQUESTS_TOTAL := 41,
         ONCALL_TEAM_ROTATION_STAFF_COUNT :=
           [(''b'', ''current'') \<mapsto> 6, (''e'', ''current'') \<mapsto> 0, (''e'', ''next'') \<mapsto> 0],
         ONCALL_TEAM_ROTATION_UNREACHABLE_BY_PHONE_COUNT :=
           [(''b'', ''current'') \<mapsto> 1, (''e'', ''current'') \<mapsto> 0, (''e'', ''next'') \<mapsto> 0]\<rparr>,
       1, 1))"
proof -
  have l: "teams_upstream ''/api/v0/teams'' =
      Inr \<lparr>status_code = 200, body = Some (JArr sample_teams)\<rparr>"
    by (simp add: teams_upstream_def)
  have m: "JStr ''e'' \<in> set sample_teams" by (simp add: sample_teams_def)
  have f: "teams_upstream (summary_path (py_str sample_fmt (JStr ''e''))) =
      Inr \<lparr>status_code = 200, body = Some summary_e\<rparr>"
    by (simp add: teams_upstream_def summary_path_def py_str_def)
  have c: "field summary_e ''current'' = Some JNull" and n: "field summary_e ''next'' = Some JNull"
    by (simp_all add: summary_e_def field_def)
  from team_with_null_slots [where up = teams_upstream and fmt = sample_fmt
      and names = sample_teams and t = "JStr ''e''" and reg = stale_registry and r = stale_registry
      and understaffed = 1 and unreachable = 1 and rest = "[]",
      OF l _ _ sample_teams_ok m f _ _ c n] l sample_teams_ok m f c n
  show ?thesis
    by (simp add: sample_teams_def py_str_def sample_slot_events sample_members stale_registry_def)
qed

text \<open>
  C10. Let the team list fetch succeed and every summary fetch return a response that
  is either not a 200 or a 200 whose summary follows the schema. A slot, \<^verbatim>\<open>current\<close> or
  \<^verbatim>\<open>next\<close>, whose event is present with empty \<^verbatim>\<open>primary\<close> and \<^verbatim>\<open>secondary\<close> lists is truthy, so
  the loop body takes the branch of a present event: it sets the staff count and the
  unreachable count of the slot to 0 and sets both flags, since \<open>0 < 2\<close> and the empty
  list of members without phone equals the empty list of members. After the run of
  \<open>teams\<close> both series of that slot hold 0 and the team is counted in both rollup
  gauges: \<open>oncall_teams_understaffed\<close> and \<open>oncall_teams_total_unreachable_by_phone\<close> hold
  one for every entry of the list with that team's name, plus the number of flagged
  entries with another name. A slot whose value is falsy (\<^verbatim>\<open>null\<close>, \<^verbatim>\<open>{}\<close>) also gets both
  counts 0, but leaves both flags as they were.
\<close>

theorem empty_event_sets_both_flags:
  assumes "up ''/api/v0/teams'' = Inr resp" and "status_code resp = 200"
    and "body resp = Some (JArr names)"
    and "list_all (\<lambda>t. team_ok up (py_str fmt t)) names"
    and "t \<in> set names"
    and "up (summary_path (py_str fmt t)) = Inr resp_t" and "status_code resp_t = 200"
    and "body resp_t = Some d"
    and "slot = ''current'' \<or> slot = ''next''"
    and "field d slot = Some ev"
    and "list_field ev ''primary'' = Some []" and "list_field ev ''secondary'' = Some []"
  shows "fst (teams fmt up reg) = None \<and>
         ONCALL_TEAM_ROTATION_STAFF_COUNT (snd (teams fmt up reg)) (py_str fmt t, slot) = Some 0 \<and>
         ONCALL_TEAM_ROTATION_UNREACHABLE_BY_PHONE_COUNT (snd (teams fmt up reg))
           (py_str fmt t, slot) = Some 0 \<and>
         ONCALL_TEAMS_UNDERSTAFFED (snd (teams fmt up reg)) =
           int (length (filter (\<lambda>t'. py_str fmt t' = py_str fmt t) names)) +
           int (length (filter
             (\<lambda>t'. \<exists>slot\<in>{''current'', ''next''}. \<exists>ev.
                slot_event up (py_str fmt t') slot = Some ev \<and> length (event_members ev) < 2)
             (filter (\<lambda>t'. py_str fmt t' \<noteq> py_str fmt t) names))) \<and>
         ONCALL_TEAMS_TOTAL_UNREACHABLE_BY_PHONE (snd (teams fmt up reg)) =
           int (length (filter (\<lambda>t'. py_str fmt t' = py_str fmt t) names)) +
           int (length (filter
             (\<lambda>t'. \<exists>slot\<in>{''current'', ''next''}. \<exists>ev.
                slot_event up (py_str fmt t') slot = Some ev \<and>
                filter lacks_phone (event_members ev) = event_members ev)
             (filter (\<lambda>t'. py_str fmt t' \<noteq> py_str fmt t) names))) \<and>
         1 \<le> ONCALL_TEAMS_UNDERSTAFFED (snd (teams fmt up reg)) \<and>
         1 \<le> ONCALL_TEAMS_TOTAL_UNREACHABLE_BY_PHONE (snd (teams fmt up reg)) \<and>
         slot_body fmt t d slot (r, a, b) =
           Inr (r\<lparr>ONCALL_TEAM_ROTATION_STAFF_COUNT :=
                     (ONCALL_TEAM_ROTATION_STAFF_COUNT r)((py_str fmt t, slot) \<mapsto> 0),
                   ONCALL_TEAM_ROTATION_UNREACHABLE_BY_PHONE_COUNT :=
                     (ONCALL_TEAM_ROTATION_UNREACHABLE_BY_PHONE_COUNT r)
                       ((py_str fmt t, slot) \<mapsto> 0)\<rparr>,
                True, True) \<and>
         teams_loop fmt up (t # rest) (r, understaffed, unreachable) =
           teams_loop fmt up rest
            (r\<lparr>ONCALL_API_REQUESTS_TOTAL := ONCALL_API_REQUESTS_TOTAL r + 1,
                 ONCALL_TEAM_ROTATION_STAFF_COUNT :=
                   (ONCALL_TEAM_ROTATION_STAFF_COUNT r)
                     ((py_str fmt t, ''current'') \<mapsto> slot_staff d ''current'',
                      (py_str fmt t, ''next'') \<mapsto> slot_staff d ''next''),
                 ONCALL_TEAM_ROTATION_UNREACHABLE_BY_PHONE_COUNT :=
                   (ONCALL_TEAM_ROTATION_UNREACHABLE_BY_PHONE_COUNT r)
                     ((py_str fmt t, ''current'') \<mapsto> slot_unreachable d ''current'',
                      (py_str fmt t, ''next'') \<mapsto> slot_unreachable d ''next'')\<rparr>,
             understaffed + 1, unreachable + 1) \<and>
         slot_staff d slot = 0 \<and> slot_unreachable d slot = 0 \<and>
         (\<forall>other v. field d other = Some v \<and> \<not> truthy v \<longrightarrow>
            slot_body fmt t d other (r, a, b) =
              Inr (r\<lparr>ONCALL_TEAM_ROTATION_STAFF_COUNT :=
                        (ONCALL_TEAM_ROTATION_STAFF_COUNT r)((py_str fmt t, other) \<mapsto> 0),
                      ONCALL_TEAM_ROTATION_UNREACHABLE_BY_PHONE_COUNT :=
                        (ONCALL_TEAM_ROTATION_UNREACHABLE_BY_PHONE_COUNT r)
                          ((py_str fmt t, other) \<mapsto> 0)\<rparr>,
                   a, b))"
proof -
  note e = empty_event_slot [OF assms(10-12)]
  have so: "summary_of up (py_str fmt t) = Some d"
    using assms(6-8) by (rule summary_of_200)
  have ok: "team_ok up (py_str fmt t)"
    using assms(4,5) by (auto simp: list_all_iff)
  have sm: "is_summary d"
    using ok assms(6-8) by (rule team_ok_200)
  have m: "py_str fmt t \<in> py_str fmt ` set names" using assms(5) by simp
  from teams_ok_run [where up = up and fmt = fmt and reg = reg, OF assms(1-4)] obtain reg' where
    run: "teams fmt up reg =
           (None, reg'\<lparr>ONCALL_TEAMS_UNDERSTAFFED :=
                           int (length (filter (\<lambda>t. team_understaffed up (py_str fmt t)) names)),
                         ONCALL_TEAMS_TOTAL_UNREACHABLE_BY_PHONE :=
                           int (length (filter (\<lambda>t. team_unreachable up (py_str fmt t)) names))\<rparr>)"
    and s: "ONCALL_TEAM_ROTATION_STAFF_COUNT reg' =
           series_after slot_staff up (py_str fmt ` set names) (ONCALL_TEAM_ROTATION_STAFF_COUNT reg)"
    and u: "ONCALL_TEAM_ROTATION_UNREACHABLE_BY_PHONE_COUNT reg' =
           series_after slot_unreachable up (py_str fmt ` set names)
             (ONCALL_TEAM_ROTATION_UNREACHABLE_BY_PHONE_COUNT reg)"
    by blast
  have series: "ONCALL_TEAM_ROTATION_STAFF_COUNT reg' (py_str fmt t, slot) = Some 0"
    "ONCALL_TEAM_ROTATION_UNREACHABLE_BY_PHONE_COUNT reg' (py_str fmt t, slot) = Some 0"
    using m assms(9) by (simp_all add: s u series_after_def so e)
  have f: "slot_understaffed d ''current'' \<or> slot_understaffed d ''next''"
    "slot_all_unreachable d ''current'' \<or> slot_all_unreachable d ''next''"
    using assms(9) e(4,5) by auto
  have yu: "team_understaffed up (py_str fmt t')" if "py_str fmt t' = py_str fmt t" for t'
    using that f by (simp add: team_understaffed_def so)
  have yr: "team_unreachable up (py_str fmt t')" if "py_str fmt t' = py_str fmt t" for t'
    using that f by (simp add: team_unreachable_def so)
  have pos: "1 \<le> int (length (filter (\<lambda>t'. py_str fmt t' = py_str fmt t) names))"
  proof -
    from assms(5) have "t \<in> set (filter (\<lambda>t'. py_str fmt t' = py_str fmt t) names)" by simp
    then have "filter (\<lambda>t'. py_str fmt t' = py_str fmt t) names \<noteq> []" by force
    then show ?thesis by (cases "filter (\<lambda>t'. py_str fmt t' = py_str fmt t) names") simp_all
  qed
  have gu: "ONCALL_TEAMS_UNDERSTAFFED (snd (teams fmt up reg)) =
      int (length (filter (\<lambda>t'. py_str fmt t' = py_str fmt t) names)) +
      int (length (filter (\<lambda>t. team_understaffed up (py_str fmt t))
          (filter (\<lambda>t'. py_str fmt t' \<noteq> py_str fmt t) names)))"
    unfolding run
    using count_with_name [where L = "py_str fmt" and l = "py_str fmt t"
        and P = "\<lambda>t. team_understaffed up (py_str fmt t)" and xs = names, OF yu]
    by simp
  have gr: "ONCALL_TEAMS_TOTAL_UNREACHABLE_BY_PHONE (snd (teams fmt up reg)) =
      int (length (filter (\<lambda>t'. py_str fmt t' = py_str fmt t) names)) +
      int (length (filter (\<lambda>t. team_unreachable up (py_str fmt t))
          (filter (\<lambda>t'. py_str fmt t' \<noteq> py_str fmt t) names)))"
    unfolding run
    using count_with_name [where L = "py_str fmt" and l = "py_str fmt t"
        and P = "\<lambda>t. team_unreachable up (py_str fmt t)" and xs = names, OF yr]
    by simp
  have 1: "slot_body fmt t d slot (r, a, b) =
           Inr (r\<lparr>ONCALL_TEAM_ROTATION_STAFF_COUNT :=
                     (ONCALL_TEAM_ROTATION_STAFF_COUNT r)((py_str fmt t, slot) \<mapsto> 0),
                   ONCALL_TEAM_ROTATION_UNREACHABLE_BY_PHONE_COUNT :=
                     (ONCALL_TEAM_ROTATION_UNREACHABLE_BY_PHONE_COUNT r)
                       ((py_str fmt t, slot) \<mapsto> 0)\<rparr>,
                True, True)"
    by (simp add: slot_body_is_slot [OF e(1)] e)
  have 2: "teams_loop fmt up (t # rest) (r, understaffed, unreachable) =
           teams_loop fmt up rest
            (r\<lparr>ONCALL_API_REQUESTS_TOTAL := ONCALL_API_REQUESTS_TOTAL r + 1,
                 ONCALL_TEAM_ROTATION_STAFF_COUNT :=
                   (ONCALL_TEAM_ROTATION_STAFF_COUNT r)
                     ((py_str fmt t, ''current'') \<mapsto> slot_staff d ''current'',
                      (py_str fmt t, ''next'') \<mapsto> slot_staff d ''next''),
                 ONCALL_TEAM_ROTATION_UNREACHABLE_BY_PHONE_COUNT :=
                   (ONCALL_TEAM_ROTATION_UNREACHABLE_BY_PHONE_COUNT r)
                     ((py_str fmt t, ''current'') \<mapsto> slot_unreachable d ''current'',
                      (py_str fmt t, ''next'') \<mapsto> slot_unreachable d ''next'')\<rparr>,
             understaffed + 1, unreachable + 1)"
    using team_body_summary [where up = up and fmt = fmt and t = t and reg = r
      and us = understaffed and ur = unreachable, OF assms(6-8) sm] f
    by simp
  have 3: "slot_body fmt t d other (r, a, b) =
              Inr (r\<lparr>ONCALL_TEAM_ROTATION_STAFF_COUNT :=
                        (ONCALL_TEAM_ROTATION_STAFF_COUNT r)((py_str fmt t, other) \<mapsto> 0),
                      ONCALL_TEAM_ROTATION_UNREACHABLE_BY_PHONE_COUNT :=
                        (ONCALL_TEAM_ROTATION_UNREACHABLE_BY_PHONE_COUNT r)
                          ((py_str fmt t, other) \<mapsto> 0)\<rparr>,
                   a, b)"
    if "field d other = Some v" and "\<not> truthy v" for other v
    by (simp add: slot_body_is_slot [OF falsy_slot(1) [OF that]] falsy_slot [OF that])
  have 4: "fst (teams fmt up reg) = None"
    "ONCALL_TEAM_ROTATION_STAFF_COUNT (snd (teams fmt up reg)) (py_str fmt t, slot) = Some 0"
    "ONCALL_TEAM_ROTATION_UNREACHABLE_BY_PHONE_COUNT (snd (teams fmt up reg))
       (py_str fmt t, slot) = Some 0"
    using series by (simp_all add: run)
  have 5: "1 \<le> ONCALL_TEAMS_UNDERSTAFFED (snd (teams fmt up reg))"
    "1 \<le> ONCALL_TEAMS_TOTAL_UNREACHABLE_BY_PHONE (snd (teams fmt up reg))"
    using pos gu gr by simp_all
  from gu gr have 6: "ONCALL_TEAMS_UNDERSTAFFED (snd (teams fmt up reg)) =
           int (length (filter (\<lambda>t'. py_str fmt t' = py_str fmt t) names)) +
           int (length (filter
             (\<lambda>t'. \<exists>slot\<in>{''current'', ''next''}. \<exists>ev.
                slot_event up (py_str fmt t') slot = Some ev \<and> length (event_members ev) < 2)
             (filter (\<lambda>t'. py_str fmt t' \<noteq> py_str fmt t) names)))"
    "ONCALL_TEAMS_TOTAL_UNREACHABLE_BY_PHONE (snd (teams fmt up reg)) =
           int (length (filter (\<lambda>t'. py_str fmt t' = py_str fmt t) names)) +
           int (length (filter
             (\<lambda>t'. \<exists>slot\<in>{''current'', ''next''}. \<exists>ev.
                slot_event up (py_str fmt t') slot = Some ev \<and>
                filter lacks_phone (event_members ev) = event_members ev)
             (filter (\<lambda>t'. py_str fmt t' \<noteq> py_str fmt t) names)))"
    by (simp_all add: team_understaffed_iff team_unreachable_iff)
  from 1 2 3 4 5 6 e(2,3) show ?thesis by blast
qed


theorem empty_event_sets_both_flags_witness:
  "teams_upstream ''/api/v0/teams'' = Inr \<lparr>status_code = 200, body = Some (JArr sample_teams)\<rparr> \<and>
   list_all (\<lambda>t. team_ok teams_upstream (py_str sample_fmt t)) sample_teams \<and>
   JStr ''d'' \<in> set sample_teams \<and>
   teams_upstream (summary_path (py_str sample_fmt (JStr ''d''))) =
     Inr \<lparr>status_code = 200, body = Some summary_d\<rparr> \<and>
   field summary_d ''current'' = Some (JObj [(''primary'', JArr []), (''secondary'', JArr [])]) \<and>
   field summary_d ''next'' = Some JNull \<and>
   fst (teams sample_fmt teams_upstream fresh_registry) = None \<and>
   ONCALL_TEAM_ROTATION_STAFF_COUNT (snd (teams sample_fmt teams_upstream fresh_registry))
     (''d'', ''current'') = Some 0 \<and>
   ONCALL_TEAM_ROTATION_UNREACHABLE_BY_PHONE_COUNT
     (snd (teams sample_fmt teams_upstream fresh_registry)) (''d'', ''current'') = Some 0 \<and>
   ONCALL_TEAMS_UNDERSTAFFED (snd (teams sample_fmt teams_upstream fresh_registry)) = 1 + 1 \<and>
   ONCALL_TEAMS_TOTAL_UNREACHABLE_BY_PHONE (snd (teams sample_fmt teams_upstream fresh_registry)) =
     1 + 1 \<and>
   slot_body sample_fmt (JStr ''d'') summary_d ''current'' (fresh_registry, False, False) =
     Inr (fresh_registry\<lparr>ONCALL_TEAM_ROTATION_STAFF_COUNT := [(''d'', ''current'') \<mapsto> 0],
            ONCALL_TEAM_ROTATION_UNREACHABLE_BY_PHONE_COUNT := [(''d'', ''current'') \<mapsto> 0]\<rparr>,
          True, True) \<and>
   slot_body sample_fmt (JStr ''d'') summary_d ''next'' (fresh_registry, False, False) =
     Inr (fresh_registry\<lparr>ONCALL_TEAM_ROTATION_STAFF_COUNT := [(''d'', ''next'') \<mapsto> 0],
            ONCALL_TEAM_ROTATION_UNREACHABLE_BY_PHONE_COUNT := [(''d'', ''next'') \<mapsto> 0]\<rparr>,
          False, False) \<and>
   teams_loop sample_fmt teams_upstream [JStr ''d''] (fresh_registry, 0, 0) =
     (None,
      (fresh_registry\<lparr>ONCALL_API_REQUESTS_TOTAL := 1,
         ONCALL_TEAM_ROTATION_STAFF_COUNT := [(''d'', ''current'') \<mapsto> 0, (''d'', ''next'') \<mapsto> 0],
         ONCALL_TEAM_ROTATION_UNREACHABLE_BY_PHONE_COUNT :=
           [(''d'', ''current'') \<mapsto> 0, (''d'', ''next'') \<mapsto> 0]\<rparr>,
       1, 1))"
proof -
  let ?ev = "JObj [(''primary'', JArr []), (''secondary'', JArr [])]"
  have l: "teams_upstream ''/api/v0/teams'' =
      Inr \<lparr>status_code = 200, body = Some (JArr sample_teams)\<rparr>"
    by (simp add: teams_upstream_def)
  have m: "JStr ''d'' \<in> set sample_teams" by (simp add: sample_teams_def)
  have f: "teams_upstream (summary_path (py_str sample_fmt (JStr ''d''))) =
      Inr \<lparr>status_code = 200, body = Some summary_d\<rparr>"
    by (simp add: teams_upstream_def summary_path_def py_str_def)
  have c: "field summary_d ''current'' = Some ?ev" and n: "field summary_d ''next'' = Some JNull"
    by (simp_all add: summary_d_def field_def)
  have p: "list_field ?ev ''primary'' = Some []" "list_field ?ev ''secondary'' = Some []"
    by (simp_all add: list_field_def field_def)
  have z: "slot_staff summary_d ''next'' = 0" "slot_unreachable summary_d ''next'' = 0"
    using n by (simp_all add: slot_staff_def slot_unreachable_def slot_of_def)
  from empty_event_sets_both_flags [where up = teams_upstream and fmt = sample_fmt
      and names = sample_teams and t = "JStr ''d''" and slot = "''current''"
      and reg = fresh_registry and r = fresh_registry
      and understaffed = 0 and unreachable = 0 and rest = "[]" and a = False and b = False,
      OF l _ _ sample_teams_ok m f _ _ _ c p] l sample_teams_ok m f c n z
  show ?thesis
    by (simp add: sample_teams_def py_str_def sample_slot_events sample_members fresh_registry_def)
qed

section \<open>The scheduler loop isolates the updaters\<close>

text \<open>
  C8. As long as no interrupt arrives (no request raises \<open>SystemExit\<close>), whatever an
  updater raises (a transport error of the request, a \<open>JSONDecodeError\<close> for a body that
  is not JSON, a \<open>KeyError\<close> or \<open>TypeError\<close> for JSON of an unexpected shape) is an
  \<^verbatim>\<open>Exception\<close>, so the loop catches and logs it. After any number of passes the loop is
  still running, and every pass has run the three updaters one after the other, each
  from the registry the one before left, adding what they raised to the log; every
  updater sends at least one request, so the attempt counter has grown by at least three
  for each pass.
\<close>

theorem updater_errors_are_isolated:
  assumes "\<forall>up\<in>set ups. \<forall>path. up path \<noteq> Inl SystemExit"
  shows "fst (main_loop (updaters fmt) ups (reg, logged)) = None \<and>
         ONCALL_API_REQUESTS_TOTAL reg + 3 * int (length ups) \<le>
           ONCALL_API_REQUESTS_TOTAL (fst (snd (main_loop (updaters fmt) ups (reg, logged)))) \<and>
         (\<forall>up\<in>set ups. \<forall>r l.
            run_updaters (updaters fmt) up (r, l) =
              (let (e1, r1) = health up r;
                   (e2, r2) = number_of_users_without_contacts up r1;
                   (e3, r3) = teams fmt up r2
               in (None, (r3, l @ raised e1 @ raised e2 @ raised e3))))"
  using main_loop_isolated [OF assms, of fmt reg logged] assms
  by (simp add: run_updaters_each)

theorem updater_errors_are_isolated_witness:
  "(\<forall>path. refusing_upstream path \<noteq> Inl SystemExit) \<and>
   (\<forall>path. garbled_upstream path \<noteq> Inl SystemExit) \<and>
   main_loop (updaters sample_fmt) [refusing_upstream, garbled_upstream] (fresh_registry, []) =
     (None,
      (fresh_registry\<lparr>ONCALL_API_REQUESTS_TOTAL := 6, ONCALL_HEALTH_STATUS := 1\<rparr>,
       [RequestException, RequestException, RequestException, JSONDecodeError, JSONDecodeError]))"
  using updater_errors_are_isolated
    [of "[refusing_upstream, garbled_upstream]" sample_fmt fresh_registry "[]"]
  by (simp add: refusing_upstream_def garbled_upstream_def updaters_def health_def
      number_of_users_without_contacts_def teams_def request_with_counting_eq resp_json_def
      fresh_registry_def)

section \<open>Running an updater twice\<close>

text \<open>
  C9, as the specification states it, fails for the two request counters, which are
  metrics of the exporter too: against the same upstream, the first run of \<open>health\<close>
  leaves \<open>oncall_api_requests_total\<close> at 1 and the second run at 2.
\<close>

theorem run_twice_counterexample:
  "ONCALL_API_REQUESTS_TOTAL (snd (health garbled_upstream fresh_registry)) = 1 \<and>
   ONCALL_API_REQUESTS_TOTAL
     (snd (health garbled_upstream (snd (health garbled_upstream fresh_registry)))) = 2"
  by (simp add: health_def request_with_counting_eq garbled_upstream_def fresh_registry_def)

text \<open>
  C9, amended. For every upstream that answers each request the same way in both runs,
  transport errors and malformed bodies included, running one of the three updaters
  twice in succession leaves every gauge, labelled or not, with the same value after
  the second run as after the first, and the second run raises exactly what the first
  raised, or nothing if the first raised nothing. The request counters are not part of
  this: \<open>oncall_api_requests_total\<close> is larger after the second run than after the first.
\<close>

theorem run_twice_same_gauges:
  assumes "func \<in> set (updaters fmt)"
  shows "gauges (snd (func up (snd (func up reg)))) = gauges (snd (func up reg)) \<and>
         fst (func up (snd (func up reg))) = fst (func up reg) \<and>
         ONCALL_API_REQUESTS_TOTAL (snd (func up reg)) <
           ONCALL_API_REQUESTS_TOTAL (snd (func up (snd (func up reg))))"
proof -
  from updaters_total [OF assms, of "snd (func up reg)" up]
  have "ONCALL_API_REQUESTS_TOTAL (snd (func up reg)) <
        ONCALL_API_REQUESTS_TOTAL (snd (func up (snd (func up reg))))"
    by simp
  with assms health_twice [of up reg] users_twice [of up reg] teams_twice [of fmt up reg]
  show ?thesis by (auto simp: updaters_def)
qed

theorem run_twice_same_gauges_witness:
  "health \<in> set (updaters sample_fmt) \<and>
   snd (health unavailable_upstream stale_registry) =
     stale_registry\<lparr>ONCALL_API_REQUESTS_TOTAL := 41, ONCALL_API_REQUESTS_FAILED_TOTAL := 4,
       ONCALL_HEALTH_STATUS := 0\<rparr> \<and>
   snd (health unavailable_upstream (snd (health unavailable_upstream stale_registry))) =
     stale_registry\<lparr>ONCALL_API_REQUESTS_TOTAL := 42, ONCALL_API_REQUESTS_FAILED_TOTAL := 5,
       ONCALL_HEALTH_STATUS := 0\<rparr> \<and>
   gauges (snd (health unavailable_upstream (snd (health unavailable_upstream stale_registry)))) =
     gauges (snd (health unavailable_upstream stale_registry)) \<and>
   fst (health unavailable_upstream (snd (health unavailable_upstream stale_registry))) = None \<and>
   fst (health unavailable_upstream stale_registry) = None"
proof -
  have m: "health \<in> set (updaters sample_fmt)" by (simp add: updaters_def)
  from run_twice_same_gauges [OF m, of unavailable_upstream stale_registry] m
  show ?thesis
    by (simp add: health_def request_with_counting_eq unavailable_upstream_def stale_registry_def)
qed

end
